theory Spec2Isabelle
  imports Complex_Main
begin

section \<open>JavaScript values used by the controllers\<close>

text \<open>
  Strings are byte strings; the whitespace removed by \<open>String.prototype.trim\<close> and the
  letters changed by \<open>toLowerCase\<close> are modelled on the ASCII range. Numbers that the
  controllers use as identifiers and counters are integers.
  A \<open>Date\<close> is the number of milliseconds it stands for.
\<close>

type_synonym timestamp = int

definition is_space :: "char \<Rightarrow> bool" where
  "is_space c = (c \<in> set [CHR '' '', CHR 0x09, CHR 0x0A, CHR 0x0B, CHR 0x0C, CHR 0x0D])"

definition trim :: "string \<Rightarrow> string" where
  "trim s = rev (dropWhile is_space (rev (dropWhile is_space s)))"

definition lower_char :: "char \<Rightarrow> char" where
  "lower_char c =
     (let n = (of_char c :: nat) in if 65 \<le> n \<and> n \<le> 90 then char_of (n + 32) else c)"

definition toLowerCase :: "string \<Rightarrow> string" where
  "toLowerCase s = map lower_char s"

text \<open>\<open>Array.prototype.join\<close>.\<close>

fun join :: "string \<Rightarrow> string list \<Rightarrow> string" where
  "join sep [] = []"
| "join sep [x] = x"
| "join sep (x # y # ys) = x @ sep @ join sep (y # ys)"

text \<open>Decimal rendering of an integer, as a template literal or \<open>join\<close> prints it.\<close>

definition digit_char :: "nat \<Rightarrow> char" where
  "digit_char d = char_of (48 + d)"

fun show_nat :: "nat \<Rightarrow> string" where
  "show_nat n = (if n < 10 then [digit_char n] else show_nat (n div 10) @ [digit_char (n mod 10)])"

declare show_nat.simps [simp del]

definition show_int :: "int \<Rightarrow> string" where
  "show_int i = (if i < 0 then CHR ''-'' # show_nat (nat (- i)) else show_nat (nat i))"

text \<open>
  A JavaScript \<open>Map\<close> keeps its keys in insertion order: an association list with
  \<open>set\<close> replacing in place or appending at the end.
\<close>

type_synonym ('k, 'v) js_map = "('k \<times> 'v) list"

definition Map_has :: "('k, 'v) js_map \<Rightarrow> 'k \<Rightarrow> bool" where
  "Map_has m k = (k \<in> set (map fst m))"

definition Map_get :: "('k, 'v) js_map \<Rightarrow> 'k \<Rightarrow> 'v option" where
  "Map_get m k = map_of m k"

fun Map_set :: "'k \<Rightarrow> 'v \<Rightarrow> ('k, 'v) js_map \<Rightarrow> ('k, 'v) js_map" where
  "Map_set k v [] = [(k, v)]"
| "Map_set k v (p # m) = (if fst p = k then (k, v) # m else p # Map_set k v m)"



text \<open>
  \<open>Array.prototype.slice(start, end)\<close>: both bounds are truncated towards zero, a
  negative one counts from the end, and both are clamped to the length.
\<close>

definition ToIntegerOrInfinity :: "rat \<Rightarrow> int" where
  "ToIntegerOrInfinity x = (if x < 0 then - \<lfloor>- x\<rfloor> else \<lfloor>x\<rfloor>)"

definition slice :: "'a list \<Rightarrow> rat \<Rightarrow> rat \<Rightarrow> 'a list" where
  "slice xs start end' =
     (let len = int (length xs);
          relativeStart = ToIntegerOrInfinity start;
          k = (if relativeStart < 0 then max (len + relativeStart) 0 else min relativeStart len);
          relativeEnd = ToIntegerOrInfinity end';
          final = (if relativeEnd < 0 then max (len + relativeEnd) 0 else min relativeEnd len);
          count = max (final - k) 0
      in take (nat count) (drop (nat k) xs))"

section \<open>Tables\<close>

text \<open>
  The schema (the generated Prisma client) is not part of the sources: the rows carry the
  columns the controllers read or write, and the location columns of an address are one
  field. A table is the list of its rows; the primary key of a table is unique when the
  ids of its rows are distinct.
\<close>

record entity_row =
  entity_id :: int
  name :: "string option"
  trade_name :: "string option"
  etype :: int
  is_deleted :: bool
  deleted_at :: "timestamp option"
  updated_at :: "timestamp option"

record people_row =
  people_id :: int
  p_entity_id :: int
  first_name :: "string option"
  last_name :: "string option"
  date_of_birth :: "timestamp option"
  p_created_at :: "timestamp option"
  p_updated_at :: "timestamp option"
  p_deleted_at :: "timestamp option"

datatype route_error = BadRequest string

section \<open>Candidate grouper\<close>

text \<open>
  One iteration of the grouping loop, for a record \<open>x\<close> whose key has been computed:
  \<^verbatim>\<open>if (!key) continue;
  if (!nameGroups.has(key)) nameGroups.set(key, []);
  nameGroups.get(key)!.push(x);\<close>
\<close>

definition nameGroups_step :: "string \<Rightarrow> 'a \<Rightarrow> (string, 'a list) js_map \<Rightarrow> (string, 'a list) js_map" where
  "nameGroups_step key x nameGroups =
     (if key = [] then nameGroups
      else let m = (if \<not> Map_has nameGroups key then Map_set key [] nameGroups else nameGroups)
           in case Map_get m key of
                Some g \<Rightarrow> Map_set key (g @ [x]) m
              | None \<Rightarrow> m)"

definition build_nameGroups :: "('a \<Rightarrow> string) \<Rightarrow> 'a list \<Rightarrow> (string, 'a list) js_map" where
  "build_nameGroups key xs = foldl (\<lambda>m x. nameGroups_step (key x) x m) [] xs"

text \<open>\<open>s?.trim().toLowerCase() || ""\<close>\<close>

definition norm_name :: "string option \<Rightarrow> string" where
  "norm_name s = (case s of None \<Rightarrow> [] | Some v \<Rightarrow> toLowerCase (trim v))"

text \<open>\<open>[firstName, lastName].filter(Boolean).join(" ")\<close>\<close>

definition fullName :: "people_row \<Rightarrow> string" where
  "fullName person =
     (let firstName = norm_name (first_name person);
          lastName = norm_name (last_name person)
      in join '' '' (filter (\<lambda>s. s \<noteq> []) [firstName, lastName]))"

text \<open>\<open>entity.name || ""\<close>\<close>

definition entity_name_key :: "entity_row \<Rightarrow> string" where
  "entity_name_key entity = (case name entity of None \<Rightarrow> [] | Some n \<Rightarrow> n)"

text \<open>The groups with two members or more, in the order of the map.\<close>

definition people_nameGroups :: "people_row list \<Rightarrow> (string, people_row list) js_map" where
  "people_nameGroups tbl = build_nameGroups fullName (filter (\<lambda>p. first_name p \<noteq> None) tbl)"

definition getDuplicatePeopleByFullNameController :: "people_row list \<Rightarrow> string list" where
  "getDuplicatePeopleByFullNameController tbl =
     map fst (filter (\<lambda>(fullName, group). length group \<ge> 2) (people_nameGroups tbl))"

definition entity_nameGroups_fixed :: "entity_row list \<Rightarrow> (string, entity_row list) js_map" where
  "entity_nameGroups_fixed tbl =
     build_nameGroups entity_name_key (filter (\<lambda>e. etype e = 2 \<and> \<not> is_deleted e) tbl)"

definition getDuplicateEntitiesByFullNameController :: "entity_row list \<Rightarrow> string list" where
  "getDuplicateEntitiesByFullNameController tbl =
     map fst (filter (\<lambda>(name, group). length group \<ge> 2) (entity_nameGroups_fixed tbl))"

record duplicate_group =
  dg_name :: string
  duplicateCount :: nat

record pagination =
  pg_limit :: rat
  pg_page :: rat
  pg_offset :: rat
  pg_total :: nat

record duplicates_page =
  duplicateGroups :: "duplicate_group list"
  pagination :: pagination

text \<open>
  A parameter of the query string: absent, or what \<open>Number\<close> makes of its text, NaN or a
  number. Infinite values are left out.
\<close>

datatype query_number = QAbsent | QNaN | QNumber rat

record pagination_query =
  q_page :: query_number
  q_limit :: query_number

text \<open>\<open>z.coerce.number().min(1).default(d)\<close>: the default for an absent parameter, no value for NaN.\<close>

definition coerce_number :: "rat \<Rightarrow> query_number \<Rightarrow> rat option" where
  "coerce_number d x = (case x of QAbsent \<Rightarrow> Some d | QNaN \<Rightarrow> None | QNumber v \<Rightarrow> Some v)"

text \<open>
  \<open>paginationSchema.safeParse(req.query)\<close>: NaN and a number below 1 are refused; any
  other number is accepted, integer or not. The message comes from \<open>zodErrorFmt\<close>, which
  is not part of the sources; it is represented by the name of the first offending
  parameter.
\<close>

definition paginationSchema :: "pagination_query \<Rightarrow> route_error + (rat \<times> rat)" where
  "paginationSchema q =
     (case coerce_number 1 (q_page q) of
        None \<Rightarrow> Inl (BadRequest ''page'')
      | Some page \<Rightarrow>
          if page < 1 then Inl (BadRequest ''page'')
          else (case coerce_number 20 (q_limit q) of
                  None \<Rightarrow> Inl (BadRequest ''limit'')
                | Some limit \<Rightarrow>
                    if limit < 1 then Inl (BadRequest ''limit'') else Inr (page, limit)))"

definition entity_nameGroups_typed :: "int \<Rightarrow> entity_row list \<Rightarrow> (string, entity_row list) js_map" where
  "entity_nameGroups_typed parsedType tbl =
     build_nameGroups entity_name_key
       (filter (\<lambda>e. etype e = parsedType \<and> \<not> is_deleted e \<and> deleted_at e = None) tbl)"

definition all_duplicateGroups :: "int \<Rightarrow> entity_row list \<Rightarrow> duplicate_group list" where
  "all_duplicateGroups parsedType tbl =
     map (\<lambda>(name, group). \<lparr>dg_name = name, duplicateCount = length group\<rparr>)
       (filter (\<lambda>(name, group). length group \<ge> 2) (entity_nameGroups_typed parsedType tbl))"

text \<open>
  The route parameter \<open>type\<close> is given by what \<open>parseInt\<close> makes of it: missing,
  not a number, or an integer.
\<close>

datatype type_param = TypeMissing | TypeNaN | TypeParsed int

definition getDuplicateEntitiesByNameWithTypeController ::
  "(rat \<Rightarrow> rat) \<Rightarrow> type_param \<Rightarrow> pagination_query \<Rightarrow> entity_row list
     \<Rightarrow> route_error + duplicates_page" where
  "getDuplicateEntitiesByNameWithTypeController rnd type query tbl =
     (case paginationSchema query of
        Inl e \<Rightarrow> Inl e
      | Inr (page, limit) \<Rightarrow>
          (case type of
             TypeMissing \<Rightarrow> Inl (BadRequest ''Entity type not provided'')
           | TypeNaN \<Rightarrow> Inl (BadRequest ''Invalid entity type provided. (NaN)'')
           | TypeParsed parsedType \<Rightarrow>
               if parsedType \<notin> set [1, 2]
               then Inl (BadRequest (''Invalid entity type provided. ('' @ show_int parsedType @ '')''))
               else let offset = rnd (rnd (page - 1) * limit);
                        duplicateGroups = all_duplicateGroups parsedType tbl;
                        paginatedResult = slice duplicateGroups offset (rnd (offset + limit))
                    in Inr \<lparr>duplicateGroups = paginatedResult,
                            pagination = \<lparr>pg_limit = limit, pg_page = page, pg_offset = offset,
                                           pg_total = length duplicateGroups\<rparr>\<rparr>))"

text \<open>
  The grouping key as the specification words it: trim and lowercase the name fields,
  and join the non-empty ones of first and last name with one separator.
\<close>

definition spec_normalized :: "string option \<Rightarrow> string" where
  "spec_normalized s = (case s of None \<Rightarrow> [] | Some v \<Rightarrow> map lower_char (trim v))"

definition spec_person_key :: "string option \<Rightarrow> string option \<Rightarrow> string" where
  "spec_person_key first_n last_n =
     (if spec_normalized first_n = [] then spec_normalized last_n
      else if spec_normalized last_n = [] then spec_normalized first_n
      else spec_normalized first_n @ '' '' @ spec_normalized last_n)"

text \<open>A record sits in the group that the map holds under a key.\<close>

definition grouped_under :: "(string, 'a list) js_map \<Rightarrow> string \<Rightarrow> 'a \<Rightarrow> bool" where
  "grouped_under m k x = (case Map_get m k of None \<Rightarrow> False | Some g \<Rightarrow> x \<in> set g)"

definition grp :: "(string, 'a list) js_map \<Rightarrow> string \<Rightarrow> 'a list" where
  "grp m k = (case map_of m k of None \<Rightarrow> [] | Some g \<Rightarrow> g)"

definition groups_ok :: "(string, 'a list) js_map \<Rightarrow> bool" where
  "groups_ok m = (distinct (map fst m) \<and> (\<forall>k g. map_of m k = Some g \<longrightarrow> k \<noteq> [] \<and> g \<noteq> []))"

text \<open>Sample rows.\<close>

definition mk_entity :: "int \<Rightarrow> string \<Rightarrow> int \<Rightarrow> entity_row" where
  "mk_entity i n t = \<lparr>entity_id = i, name = Some n, trade_name = None, etype = t,
     is_deleted = False, deleted_at = None, updated_at = None\<rparr>"

definition mk_person :: "int \<Rightarrow> int \<Rightarrow> string \<Rightarrow> string option \<Rightarrow> people_row" where
  "mk_person i e f l = \<lparr>people_id = i, p_entity_id = e, first_name = Some f, last_name = l,
     date_of_birth = None, p_created_at = None, p_updated_at = None, p_deleted_at = None\<rparr>"

definition ex_entities :: "entity_row list" where
  "ex_entities = [mk_entity 1 ''Acme'' 2, mk_entity 2 ''Acme'' 2, mk_entity 3 ''acme '' 2]"

definition ex_people :: "people_row list" where
  "ex_people = [mk_person 1 1 '' Jo'' (Some ''Smith''), mk_person 2 2 ''JO '' (Some ''smith ''),
     mk_person 3 3 ''Al'' None]"

section \<open>Merge planner: the merged property set\<close>

text \<open>
  The analysis pass (\<open>getPotentialDuplicatePeopleGroupsController\<close>) reads people with
  their entity, its addresses and its properties, and builds the merged properties of a
  proposal from the record it keeps and the records it removes, whichever they are.
\<close>

record address_row =
  address_id :: int
  a_entity_id :: int
  a_location :: string
  a_is_primary :: "string option"
  a_created_at :: "timestamp option"
  a_updated_at :: "timestamp option"
  a_deleted_at :: "timestamp option"

record property_row =
  entity_property_id :: int
  ep_entity_id :: int
  property_id :: int
  property_value :: "string option"
  is_primary :: "string option"
  ep_created_at :: "timestamp option"
  ep_updated_at :: "timestamp option"

record entity_included = entity_row +
  people :: "people_row list"
  address :: "address_row list"
  entity_property :: "property_row list"

record people_record = people_row +
  entity :: entity_included

text \<open>
  The key of the property map,
  \<^verbatim>\<open>`${prop.property_id}_${prop.property_value.trim().toLowerCase()}`\<close>,
  and one iteration of the loop over \<open>allProps\<close>: a property without a value is skipped,
  the first property of a key is stored with the kept entity as owner, a later one only
  sets the primary flag of the stored one.
\<close>

definition prop_key :: "int \<Rightarrow> string \<Rightarrow> string" where
  "prop_key pid v = show_int pid @ ''_'' @ toLowerCase (trim v)"




text \<open>
  A property contributes when the loop does not skip it: its value is neither null nor
  empty. The key of the specification is the property type with the trimmed, lowercased
  value.
\<close>

definition contributes :: "property_row \<Rightarrow> bool" where
  "contributes prop = (property_value prop \<noteq> None \<and> property_value prop \<noteq> Some [])"




text \<open>The key a property is filed under, and the invariant of the property map.\<close>

definition key_of :: "property_row \<Rightarrow> string" where
  "key_of prop =
     (case property_value prop of None \<Rightarrow> [] | Some v \<Rightarrow> prop_key (property_id prop) v)"


definition mk_property :: "int \<Rightarrow> int \<Rightarrow> int \<Rightarrow> string \<Rightarrow> string \<Rightarrow> property_row" where
  "mk_property i e t v p = \<lparr>entity_property_id = i, ep_entity_id = e, property_id = t,
     property_value = Some v, is_primary = Some p, ep_created_at = None, ep_updated_at = None\<rparr>"




section \<open>Merge validator and executor\<close>

text \<open>
  The request body. A field that JSON may leave out, or give as something that is not an
  array, is an option; \<open>merged_entity\<close> itself is destructured before any check and is
  taken as present. A date of the body is what \<open>sanitizeDate\<close> tells apart.
\<close>

datatype json_date = DateAbsent | DateEmptyObject | DateValue timestamp | DateUnparseable

definition sanitizeDate :: "json_date \<Rightarrow> timestamp option" where
  "sanitizeDate date =
     (if date = DateAbsent \<or> date = DateEmptyObject then None
      else case date of DateValue parsed \<Rightarrow> Some parsed | _ \<Rightarrow> None)"

record person_payload =
  pp_people_id :: "int option"
  pp_first_name :: "string option"
  pp_last_name :: "string option"
  pp_date_of_birth :: json_date
  pp_created_at :: json_date
  pp_deleted_at :: "timestamp option"

record address_payload =
  ap_address_id :: "int option"
  ap_location :: string
  ap_is_primary :: "string option"
  ap_created_at :: json_date
  ap_deleted_at :: "timestamp option"

record property_payload =
  pr_entity_property_id :: "int option"
  pr_property_id :: int
  pr_property_value :: "string option"
  pr_is_primary :: "string option"
  pr_created_at :: json_date

record merged_entity_payload =
  me_name :: "string option"
  me_trade_name :: "string option option"
  me_people :: "person_payload list option"
  me_address :: "address_payload list option"
  me_properties :: "property_payload list option"

record ApplyMergePayload =
  keep_entity_id :: "int option"
  remove_entity_ids :: "int list option"
  merged_entity :: merged_entity_payload

record merge_response =
  merged_entity_id :: int
  deleted_entity_ids :: "int list"
  applied :: bool

record audit_record =
  au_action :: string
  au_entity_type :: string
  au_entity_id :: int
  au_old_value :: string
  au_new_value :: string
  au_note :: string
  au_created_at :: timestamp

text \<open>
  The store: the four tables, the next identifier each table hands out on \<open>create\<close>,
  and the files under \<open>logs/\<close>.
\<close>

record store =
  entity_tbl :: "entity_row list"
  people_tbl :: "people_row list"
  address_tbl :: "address_row list"
  entity_property_tbl :: "property_row list"
  people_seq :: int
  address_seq :: int
  entity_property_seq :: int
  log_files :: "(string \<times> audit_record) list"

text \<open>What a request reads from outside the store: the clock, and whether a path can be written.\<close>

record env =
  now :: timestamp
  writable :: "string \<Rightarrow> bool"

text \<open>
  What can throw inside the transaction: an \<open>update\<close> that finds no row, and the write
  of the audit file. The messages stand for the longer texts of Prisma and Node.
\<close>

datatype prisma_error = RecordNotFound string | WriteFileError string

definition error_message :: "prisma_error \<Rightarrow> string" where
  "error_message e =
     (case e of
        RecordNotFound model \<Rightarrow> ''Record to update not found in '' @ model
      | WriteFileError path \<Rightarrow> ''ENOENT: no such file or directory, open '' @ path)"

subsection \<open>Prisma operations on a table\<close>

text \<open>\<open>update\<close> fails when no row has the key; \<open>updateMany\<close> and \<open>deleteMany\<close> never do.\<close>

definition prisma_update :: "string \<Rightarrow> ('r \<Rightarrow> int) \<Rightarrow> int \<Rightarrow> ('r \<Rightarrow> 'r) \<Rightarrow> 'r list \<Rightarrow> prisma_error + 'r list" where
  "prisma_update model pk i data rows =
     (if list_ex (\<lambda>r. pk r = i) rows
      then Inr (map (\<lambda>r. if pk r = i then data r else r) rows)
      else Inl (RecordNotFound model))"

definition prisma_updateMany :: "('r \<Rightarrow> bool) \<Rightarrow> ('r \<Rightarrow> 'r) \<Rightarrow> 'r list \<Rightarrow> 'r list" where
  "prisma_updateMany wh data rows = map (\<lambda>r. if wh r then data r else r) rows"

definition prisma_deleteMany :: "('r \<Rightarrow> bool) \<Rightarrow> 'r list \<Rightarrow> 'r list" where
  "prisma_deleteMany wh rows = filter (\<lambda>r. \<not> wh r) rows"

text \<open>Sequencing of awaited steps, and a \<open>for ... of\<close> loop whose body may throw.\<close>

definition and_then :: "'e + 'a \<Rightarrow> ('a \<Rightarrow> 'e + 'b) \<Rightarrow> 'e + 'b" where
  "and_then m f = (case m of Inl e \<Rightarrow> Inl e | Inr a \<Rightarrow> f a)"

fun for_of :: "('a \<Rightarrow> 's \<Rightarrow> 'e + 's) \<Rightarrow> 'a list \<Rightarrow> 's \<Rightarrow> 'e + 's" where
  "for_of body [] s = Inr s"
| "for_of body (x # xs) s = and_then (body x s) (for_of body xs)"

text \<open>\<open>findMany\<close> with the three relations included.\<close>

definition include_relations :: "store \<Rightarrow> entity_row \<Rightarrow> entity_included" where
  "include_relations s e = entity_row.extend e
     (entity_included.fields
        (filter (\<lambda>p. p_entity_id p = entity_id e) (people_tbl s))
        (filter (\<lambda>a. a_entity_id a = entity_id e) (address_tbl s))
        (filter (\<lambda>p. ep_entity_id p = entity_id e) (entity_property_tbl s)))"

definition findMany_entities :: "store \<Rightarrow> int list \<Rightarrow> entity_included list" where
  "findMany_entities s ids =
     map (include_relations s)
       (filter (\<lambda>e. entity_id e \<in> set ids \<and> is_deleted e = False) (entity_tbl s))"

subsection \<open>POST /entities/resolve-duplicates\<close>

text \<open>
  The checks of the body, in the order of the source; each throws \<open>RouteError.BadRequest\<close>.
  \<open>!keep_entity_id\<close> holds for an absent identifier and for 0.
\<close>

definition validate_payload ::
  "ApplyMergePayload \<Rightarrow> route_error +
     (int \<times> int list \<times> person_payload list \<times> address_payload list \<times> property_payload list)" where
  "validate_payload payload =
     (case keep_entity_id payload of
        None \<Rightarrow> Inl (BadRequest ''Field 'keep_entity_id' is required'')
      | Some keep \<Rightarrow>
          if keep = 0 then Inl (BadRequest ''Field 'keep_entity_id' is required'')
          else (case remove_entity_ids payload of
             None \<Rightarrow> Inl (BadRequest (''At least one entity must be in 'remove_entity_ids'' @ [CHR 0x27]))
           | Some remove_ids \<Rightarrow>
               if length remove_ids = 0
               then Inl (BadRequest (''At least one entity must be in 'remove_entity_ids'' @ [CHR 0x27]))
               else if keep \<in> set remove_ids
               then Inl (BadRequest (CHR 0x27 # ''keep_entity_id' cannot be in 'remove_entity_ids'' @ [CHR 0x27]))
               else (case me_people (merged_entity payload) of
                  None \<Rightarrow> Inl (BadRequest (''At least one person is required in 'merged_entity.people'' @ [CHR 0x27]))
                | Some mergedPeople \<Rightarrow>
                    (case me_address (merged_entity payload) of
                       None \<Rightarrow> Inl (BadRequest (CHR 0x27 # ''merged_entity.address' must be an array''))
                     | Some mergedAddresses \<Rightarrow>
                         (case me_properties (merged_entity payload) of
                            None \<Rightarrow> Inl (BadRequest (CHR 0x27 # ''merged_entity.properties' must be an array''))
                          | Some mergedProps \<Rightarrow>
                              Inr (keep, remove_ids, mergedPeople, mergedAddresses, mergedProps))))))"

text \<open>The entities of the request that exist and are not deleted, and the count check.\<close>

definition fetch_involved ::
  "store \<Rightarrow> int \<Rightarrow> int list \<Rightarrow> route_error + (entity_included \<times> entity_included list)" where
  "fetch_involved s keep remove_ids =
     (let allEntityIds = keep # remove_ids;
          entities = findMany_entities s allEntityIds
      in if length entities \<noteq> length allEntityIds
         then let foundIds = map entity_id entities;
                  missing = filter (\<lambda>id. id \<notin> set foundIds) allEntityIds
              in Inl (BadRequest (''Invalid entity IDs: '' @ join '', '' (map show_int missing)
                                    @ '' not found or already deleted''))
         else (case find (\<lambda>e. entity_id e = keep) entities of
                 None \<Rightarrow> Inl (BadRequest ''Keep entity not found'')
               | Some keptEntity \<Rightarrow>
                   Inr (keptEntity, filter (\<lambda>e. entity_id e \<in> set remove_ids) entities)))"

text \<open>1. The fields of the kept entity.\<close>

definition tx_update_kept ::
  "env \<Rightarrow> int \<Rightarrow> string option \<Rightarrow> string option option \<Rightarrow> entity_included \<Rightarrow> store \<Rightarrow> prisma_error + store" where
  "tx_update_kept env keep new_name new_trade_name keptEntity s =
     and_then
       (prisma_update ''entity'' entity_id keep
          (\<lambda>e. e\<lparr>name := (case new_name of None \<Rightarrow> name keptEntity | Some n \<Rightarrow> Some n),
                 trade_name := (case new_trade_name of None \<Rightarrow> trade_name e | Some t \<Rightarrow> t),
                 updated_at := Some (now env)\<rparr>)
          (entity_tbl s))
       (\<lambda>rows. Inr (s\<lparr>entity_tbl := rows\<rparr>))"

text \<open>2. People: update the person the kept entity already owns, create any other.\<close>

definition create_person :: "env \<Rightarrow> int \<Rightarrow> person_payload \<Rightarrow> store \<Rightarrow> prisma_error + store" where
  "create_person env keep person s =
     Inr (s\<lparr>people_tbl := people_tbl s @
              [\<lparr>people_id = people_seq s, p_entity_id = keep,
                first_name = pp_first_name person, last_name = pp_last_name person,
                date_of_birth = sanitizeDate (pp_date_of_birth person),
                p_created_at = Some (now env), p_updated_at = Some (now env),
                p_deleted_at = pp_deleted_at person\<rparr>],
            people_seq := people_seq s + 1\<rparr>)"

definition upsert_person ::
  "env \<Rightarrow> int \<Rightarrow> entity_included \<Rightarrow> person_payload \<Rightarrow> store \<Rightarrow> prisma_error + store" where
  "upsert_person env keep keptEntity person s =
     (case pp_people_id person of
        None \<Rightarrow> create_person env keep person s
      | Some pid \<Rightarrow>
          if pid \<noteq> 0 \<and> list_ex (\<lambda>p. people_id p = pid) (people keptEntity)
          then and_then
                 (prisma_update ''people'' people_id pid
                    (\<lambda>r. r\<lparr>first_name := pp_first_name person, last_name := pp_last_name person,
                           p_deleted_at := pp_deleted_at person,
                           p_entity_id := keep,
                           date_of_birth := sanitizeDate (pp_date_of_birth person),
                           p_updated_at := Some (now env),
                           p_created_at := sanitizeDate (pp_created_at person)\<rparr>)
                    (people_tbl s))
                 (\<lambda>rows. Inr (s\<lparr>people_tbl := rows\<rparr>))
          else create_person env keep person s)"

definition tx_delete_people :: "env \<Rightarrow> entity_included list \<Rightarrow> store \<Rightarrow> prisma_error + store" where
  "tx_delete_people env removedEntities s =
     (let peopleToDelete = map people_id (concat (map people removedEntities))
      in if length peopleToDelete > 0
         then Inr (s\<lparr>people_tbl :=
                     prisma_updateMany (\<lambda>p. people_id p \<in> set peopleToDelete)
                       (\<lambda>p. p\<lparr>p_deleted_at := Some (now env)\<rparr>) (people_tbl s)\<rparr>)
         else Inr s)"

text \<open>3. Addresses; an update leaves \<open>is_primary\<close> as it is.\<close>

definition create_address :: "env \<Rightarrow> int \<Rightarrow> address_payload \<Rightarrow> store \<Rightarrow> prisma_error + store" where
  "create_address env keep addr s =
     Inr (s\<lparr>address_tbl := address_tbl s @
              [\<lparr>address_id = address_seq s, a_entity_id = keep,
                a_location = ap_location addr, a_is_primary = ap_is_primary addr,
                a_created_at = Some (now env), a_updated_at = Some (now env),
                a_deleted_at = ap_deleted_at addr\<rparr>],
            address_seq := address_seq s + 1\<rparr>)"

definition upsert_address ::
  "env \<Rightarrow> int \<Rightarrow> entity_included \<Rightarrow> address_payload \<Rightarrow> store \<Rightarrow> prisma_error + store" where
  "upsert_address env keep keptEntity addr s =
     (case ap_address_id addr of
        None \<Rightarrow> create_address env keep addr s
      | Some aid \<Rightarrow>
          if aid \<noteq> 0
          then (case find (\<lambda>a. address_id a = aid) (address keptEntity) of
                  Some existing \<Rightarrow>
                    and_then
                      (prisma_update ''address'' address_id aid
                         (\<lambda>r. r\<lparr>a_location := ap_location addr,
                                a_deleted_at := ap_deleted_at addr,
                                a_entity_id := keep,
                                a_updated_at := Some (now env),
                                a_created_at := sanitizeDate (ap_created_at addr)\<rparr>)
                         (address_tbl s))
                      (\<lambda>rows. Inr (s\<lparr>address_tbl := rows\<rparr>))
                | None \<Rightarrow> create_address env keep addr s)
          else create_address env keep addr s)"

definition tx_delete_addresses :: "env \<Rightarrow> entity_included list \<Rightarrow> store \<Rightarrow> prisma_error + store" where
  "tx_delete_addresses env removedEntities s =
     (let addressesToDelete = map address_id (concat (map address removedEntities))
      in if length addressesToDelete > 0
         then Inr (s\<lparr>address_tbl :=
                     prisma_updateMany (\<lambda>a. address_id a \<in> set addressesToDelete)
                       (\<lambda>a. a\<lparr>a_deleted_at := Some (now env)\<rparr>) (address_tbl s)\<rparr>)
         else Inr s)"

text \<open>The \<open>deleteMany\<close> on the properties of the kept entity, ahead of the property loop.\<close>

definition tx_clear_properties :: "int \<Rightarrow> store \<Rightarrow> prisma_error + store" where
  "tx_clear_properties keep s =
     Inr (s\<lparr>entity_property_tbl :=
            prisma_deleteMany (\<lambda>p. ep_entity_id p = keep) (entity_property_tbl s)\<rparr>)"

text \<open>4. Properties: update the one found in the kept entity as fetched, create any other.\<close>

definition create_property :: "env \<Rightarrow> int \<Rightarrow> property_payload \<Rightarrow> store \<Rightarrow> prisma_error + store" where
  "create_property env keep prop s =
     Inr (s\<lparr>entity_property_tbl := entity_property_tbl s @
              [\<lparr>entity_property_id = entity_property_seq s, ep_entity_id = keep,
                property_id = pr_property_id prop, property_value = pr_property_value prop,
                is_primary = pr_is_primary prop,
                ep_created_at = Some (now env), ep_updated_at = Some (now env)\<rparr>],
            entity_property_seq := entity_property_seq s + 1\<rparr>)"

definition upsert_property ::
  "env \<Rightarrow> int \<Rightarrow> entity_included \<Rightarrow> property_payload \<Rightarrow> store \<Rightarrow> prisma_error + store" where
  "upsert_property env keep keptEntity prop s =
     (case pr_entity_property_id prop of
        None \<Rightarrow> create_property env keep prop s
      | Some epid \<Rightarrow>
          if epid \<noteq> 0
          then (case find (\<lambda>p. entity_property_id p = epid) (entity_property keptEntity) of
                  Some existing \<Rightarrow>
                    and_then
                      (prisma_update ''entity_property'' entity_property_id epid
                         (\<lambda>r. r\<lparr>property_id := pr_property_id prop,
                                property_value := pr_property_value prop,
                                is_primary := pr_is_primary prop,
                                ep_entity_id := keep,
                                ep_updated_at := Some (now env),
                                ep_created_at := sanitizeDate (pr_created_at prop)\<rparr>)
                         (entity_property_tbl s))
                      (\<lambda>rows. Inr (s\<lparr>entity_property_tbl := rows\<rparr>))
                | None \<Rightarrow> create_property env keep prop s)
          else create_property env keep prop s)"

definition tx_delete_properties :: "entity_included list \<Rightarrow> store \<Rightarrow> prisma_error + store" where
  "tx_delete_properties removedEntities s =
     (let propertiesToDelete = map entity_property_id (concat (map entity_property removedEntities))
      in if length propertiesToDelete > 0
         then Inr (s\<lparr>entity_property_tbl :=
                     prisma_deleteMany (\<lambda>p. entity_property_id p \<in> set propertiesToDelete)
                       (entity_property_tbl s)\<rparr>)
         else Inr s)"

text \<open>5. Soft deletion of the removed entities.\<close>

definition tx_soft_delete_entities :: "env \<Rightarrow> int list \<Rightarrow> store \<Rightarrow> prisma_error + store" where
  "tx_soft_delete_entities env remove_ids s =
     Inr (s\<lparr>entity_tbl :=
            prisma_updateMany (\<lambda>e. entity_id e \<in> set remove_ids)
              (\<lambda>e. e\<lparr>is_deleted := True, deleted_at := Some (now env)\<rparr>) (entity_tbl s)\<rparr>)"

text \<open>
  The audit file. Its name ends with the clock reading, written here without the digit
  grouping of \<open>toLocaleString\<close>.
\<close>

definition tx_write_audit ::
  "env \<Rightarrow> int \<Rightarrow> int list \<Rightarrow> person_payload list \<Rightarrow> address_payload list \<Rightarrow> entity_included
     \<Rightarrow> store \<Rightarrow> prisma_error + store" where
  "tx_write_audit env keep remove_ids mergedPeople mergedAddresses keptEntity s =
     (let path = ''logs/'' @ (case name keptEntity of None \<Rightarrow> ''null'' | Some n \<Rightarrow> n)
                   @ ''-'' @ show_int (now env);
          entry = \<lparr>au_action = ''ENTITY_MERGE'', au_entity_type = ''entity'',
                     au_entity_id = keep,
                     au_old_value = ''Merged from '' @ show_nat (length remove_ids) @ '' duplicates'',
                     au_new_value = ''Merged entity updated with '' @ show_nat (length mergedPeople)
                        @ '' people, '' @ show_nat (length mergedAddresses) @ '' addresses'',
                     au_note = ''Applied client-submitted merge plan'',
                     au_created_at = now env\<rparr>
      in if writable env path then Inr (s\<lparr>log_files := log_files s @ [(path, entry)]\<rparr>)
         else Inl (WriteFileError path))"

text \<open>The body of the transaction: the awaited steps in their order.\<close>

definition merge_transaction ::
  "env \<Rightarrow> int \<Rightarrow> int list \<Rightarrow> string option \<Rightarrow> string option option \<Rightarrow> person_payload list
     \<Rightarrow> address_payload list \<Rightarrow> property_payload list \<Rightarrow> entity_included
     \<Rightarrow> entity_included list \<Rightarrow> store \<Rightarrow> prisma_error + store" where
  "merge_transaction env keep remove_ids new_name new_trade_name mergedPeople mergedAddresses
       mergedProps keptEntity removedEntities =
     for_of (\<lambda>step. step)
       [tx_update_kept env keep new_name new_trade_name keptEntity,
        for_of (upsert_person env keep keptEntity) mergedPeople,
        tx_delete_people env removedEntities,
        for_of (upsert_address env keep keptEntity) mergedAddresses,
        tx_delete_addresses env removedEntities,
        tx_clear_properties keep,
        for_of (upsert_property env keep keptEntity) mergedProps,
        tx_delete_properties removedEntities,
        tx_soft_delete_entities env remove_ids,
        tx_write_audit env keep remove_ids mergedPeople mergedAddresses keptEntity]"

text \<open>
  The controller returns its response or the error it throws, with the store as the
  request leaves it: a failed transaction is rolled back.
\<close>

definition applyEntitiesDuplicateMergeController ::
  "env \<Rightarrow> ApplyMergePayload \<Rightarrow> store \<Rightarrow> (route_error + merge_response) \<times> store" where
  "applyEntitiesDuplicateMergeController env payload s =
     (case validate_payload payload of
        Inl e \<Rightarrow> (Inl e, s)
      | Inr (keep, remove_ids, mergedPeople, mergedAddresses, mergedProps) \<Rightarrow>
          (case fetch_involved s keep remove_ids of
             Inl e \<Rightarrow> (Inl e, s)
           | Inr (keptEntity, removedEntities) \<Rightarrow>
               (case merge_transaction env keep remove_ids (me_name (merged_entity payload))
                       (me_trade_name (merged_entity payload)) mergedPeople mergedAddresses
                       mergedProps keptEntity removedEntities s of
                  Inl error \<Rightarrow>
                    (Inl (BadRequest (''Failed to apply merge: '' @ error_message error)), s)
                | Inr s' \<Rightarrow>
                    (Inr \<lparr>merged_entity_id = keep, deleted_entity_ids = remove_ids,
                          applied = True\<rparr>, s'))))"

subsection \<open>POST /entities/resolve-duplicates/manual\<close>

text \<open>The second controller of the source, translated from its own text.\<close>

definition validate_payload_manual ::
  "ApplyMergePayload \<Rightarrow> route_error +
     (int \<times> int list \<times> person_payload list \<times> address_payload list \<times> property_payload list)" where
  "validate_payload_manual payload =
     (case keep_entity_id payload of
        None \<Rightarrow> Inl (BadRequest ''Field 'keep_entity_id' is required'')
      | Some keep \<Rightarrow>
          if keep = 0 then Inl (BadRequest ''Field 'keep_entity_id' is required'')
          else (case remove_entity_ids payload of
             None \<Rightarrow> Inl (BadRequest (''At least one entity must be in 'remove_entity_ids'' @ [CHR 0x27]))
           | Some remove_ids \<Rightarrow>
               if length remove_ids = 0
               then Inl (BadRequest (''At least one entity must be in 'remove_entity_ids'' @ [CHR 0x27]))
               else if keep \<in> set remove_ids
               then Inl (BadRequest (CHR 0x27 # ''keep_entity_id' cannot be in 'remove_entity_ids'' @ [CHR 0x27]))
               else (case me_people (merged_entity payload) of
                  None \<Rightarrow> Inl (BadRequest (''At least one person is required in 'merged_entity.people'' @ [CHR 0x27]))
                | Some mergedPeople \<Rightarrow>
                    (case me_address (merged_entity payload) of
                       None \<Rightarrow> Inl (BadRequest (CHR 0x27 # ''merged_entity.address' must be an array''))
                     | Some mergedAddresses \<Rightarrow>
                         (case me_properties (merged_entity payload) of
                            None \<Rightarrow> Inl (BadRequest (CHR 0x27 # ''merged_entity.properties' must be an array''))
                          | Some mergedProps \<Rightarrow>
                              Inr (keep, remove_ids, mergedPeople, mergedAddresses, mergedProps))))))"

definition fetch_involved_manual ::
  "store \<Rightarrow> int \<Rightarrow> int list \<Rightarrow> route_error + (entity_included \<times> entity_included list)" where
  "fetch_involved_manual s keep remove_ids =
     (let allEntityIds = keep # remove_ids;
          entities = findMany_entities s allEntityIds
      in if length entities \<noteq> length allEntityIds
         then let foundIds = map entity_id entities;
                  missing = filter (\<lambda>id. id \<notin> set foundIds) allEntityIds
              in Inl (BadRequest (''Invalid entity IDs: '' @ join '', '' (map show_int missing)
                                    @ '' not found or already deleted''))
         else (case find (\<lambda>e. entity_id e = keep) entities of
                 None \<Rightarrow> Inl (BadRequest ''Keep entity not found'')
               | Some keptEntity \<Rightarrow>
                   Inr (keptEntity, filter (\<lambda>e. entity_id e \<in> set remove_ids) entities)))"

definition tx_update_kept_manual ::
  "env \<Rightarrow> int \<Rightarrow> string option \<Rightarrow> string option option \<Rightarrow> entity_included \<Rightarrow> store \<Rightarrow> prisma_error + store" where
  "tx_update_kept_manual env keep new_name new_trade_name keptEntity s =
     and_then
       (prisma_update ''entity'' entity_id keep
          (\<lambda>e. e\<lparr>name := (case new_name of None \<Rightarrow> name keptEntity | Some n \<Rightarrow> Some n),
                 trade_name := (case new_trade_name of None \<Rightarrow> trade_name e | Some t \<Rightarrow> t),
                 updated_at := Some (now env)\<rparr>)
          (entity_tbl s))
       (\<lambda>rows. Inr (s\<lparr>entity_tbl := rows\<rparr>))"

definition create_person_manual :: "env \<Rightarrow> int \<Rightarrow> person_payload \<Rightarrow> store \<Rightarrow> prisma_error + store" where
  "create_person_manual env keep person s =
     Inr (s\<lparr>people_tbl := people_tbl s @
              [\<lparr>people_id = people_seq s, p_entity_id = keep,
                first_name = pp_first_name person, last_name = pp_last_name person,
                date_of_birth = sanitizeDate (pp_date_of_birth person),
                p_created_at = Some (now env), p_updated_at = Some (now env),
                p_deleted_at = pp_deleted_at person\<rparr>],
            people_seq := people_seq s + 1\<rparr>)"

definition upsert_person_manual ::
  "env \<Rightarrow> int \<Rightarrow> entity_included \<Rightarrow> person_payload \<Rightarrow> store \<Rightarrow> prisma_error + store" where
  "upsert_person_manual env keep keptEntity person s =
     (case pp_people_id person of
        None \<Rightarrow> create_person_manual env keep person s
      | Some pid \<Rightarrow>
          if pid \<noteq> 0 \<and> list_ex (\<lambda>p. people_id p = pid) (people keptEntity)
          then and_then
                 (prisma_update ''people'' people_id pid
                    (\<lambda>r. r\<lparr>first_name := pp_first_name person, last_name := pp_last_name person,
                           p_deleted_at := pp_deleted_at person,
                           p_entity_id := keep,
                           date_of_birth := sanitizeDate (pp_date_of_birth person),
                           p_updated_at := Some (now env),
                           p_created_at := sanitizeDate (pp_created_at person)\<rparr>)
                    (people_tbl s))
                 (\<lambda>rows. Inr (s\<lparr>people_tbl := rows\<rparr>))
          else create_person_manual env keep person s)"

definition tx_delete_people_manual :: "env \<Rightarrow> entity_included list \<Rightarrow> store \<Rightarrow> prisma_error + store" where
  "tx_delete_people_manual env removedEntities s =
     (let peopleToDelete = map people_id (concat (map people removedEntities))
      in if length peopleToDelete > 0
         then Inr (s\<lparr>people_tbl :=
                     prisma_updateMany (\<lambda>p. people_id p \<in> set peopleToDelete)
                       (\<lambda>p. p\<lparr>p_deleted_at := Some (now env)\<rparr>) (people_tbl s)\<rparr>)
         else Inr s)"

definition create_address_manual :: "env \<Rightarrow> int \<Rightarrow> address_payload \<Rightarrow> store \<Rightarrow> prisma_error + store" where
  "create_address_manual env keep addr s =
     Inr (s\<lparr>address_tbl := address_tbl s @
              [\<lparr>address_id = address_seq s, a_entity_id = keep,
                a_location = ap_location addr, a_is_primary = ap_is_primary addr,
                a_created_at = Some (now env), a_updated_at = Some (now env),
                a_deleted_at = ap_deleted_at addr\<rparr>],
            address_seq := address_seq s + 1\<rparr>)"

definition upsert_address_manual ::
  "env \<Rightarrow> int \<Rightarrow> entity_included \<Rightarrow> address_payload \<Rightarrow> store \<Rightarrow> prisma_error + store" where
  "upsert_address_manual env keep keptEntity addr s =
     (case ap_address_id addr of
        None \<Rightarrow> create_address_manual env keep addr s
      | Some aid \<Rightarrow>
          if aid \<noteq> 0
          then (case find (\<lambda>a. address_id a = aid) (address keptEntity) of
                  Some existing \<Rightarrow>
                    and_then
                      (prisma_update ''address'' address_id aid
                         (\<lambda>r. r\<lparr>a_location := ap_location addr,
                                a_deleted_at := ap_deleted_at addr,
                                a_entity_id := keep,
                                a_updated_at := Some (now env),
                                a_created_at := sanitizeDate (ap_created_at addr)\<rparr>)
                         (address_tbl s))
                      (\<lambda>rows. Inr (s\<lparr>address_tbl := rows\<rparr>))
                | None \<Rightarrow> create_address_manual env keep addr s)
          else create_address_manual env keep addr s)"

definition tx_delete_addresses_manual :: "env \<Rightarrow> entity_included list \<Rightarrow> store \<Rightarrow> prisma_error + store" where
  "tx_delete_addresses_manual env removedEntities s =
     (let addressesToDelete = map address_id (concat (map address removedEntities))
      in if length addressesToDelete > 0
         then Inr (s\<lparr>address_tbl :=
                     prisma_updateMany (\<lambda>a. address_id a \<in> set addressesToDelete)
                       (\<lambda>a. a\<lparr>a_deleted_at := Some (now env)\<rparr>) (address_tbl s)\<rparr>)
         else Inr s)"

definition tx_clear_properties_manual :: "int \<Rightarrow> store \<Rightarrow> prisma_error + store" where
  "tx_clear_properties_manual keep s =
     Inr (s\<lparr>entity_property_tbl :=
            prisma_deleteMany (\<lambda>p. ep_entity_id p = keep) (entity_property_tbl s)\<rparr>)"

definition create_property_manual :: "env \<Rightarrow> int \<Rightarrow> property_payload \<Rightarrow> store \<Rightarrow> prisma_error + store" where
  "create_property_manual env keep prop s =
     Inr (s\<lparr>entity_property_tbl := entity_property_tbl s @
              [\<lparr>entity_property_id = entity_property_seq s, ep_entity_id = keep,
                property_id = pr_property_id prop, property_value = pr_property_value prop,
                is_primary = pr_is_primary prop,
                ep_created_at = Some (now env), ep_updated_at = Some (now env)\<rparr>],
            entity_property_seq := entity_property_seq s + 1\<rparr>)"

definition upsert_property_manual ::
  "env \<Rightarrow> int \<Rightarrow> entity_included \<Rightarrow> property_payload \<Rightarrow> store \<Rightarrow> prisma_error + store" where
  "upsert_property_manual env keep keptEntity prop s =
     (case pr_entity_property_id prop of
        None \<Rightarrow> create_property_manual env keep prop s
      | Some epid \<Rightarrow>
          if epid \<noteq> 0
          then (case find (\<lambda>p. entity_property_id p = epid) (entity_property keptEntity) of
                  Some existing \<Rightarrow>
                    and_then
                      (prisma_update ''entity_property'' entity_property_id epid
                         (\<lambda>r. r\<lparr>property_id := pr_property_id prop,
                                property_value := pr_property_value prop,
                                is_primary := pr_is_primary prop,
                                ep_entity_id := keep,
                                ep_updated_at := Some (now env),
                                ep_created_at := sanitizeDate (pr_created_at prop)\<rparr>)
                         (entity_property_tbl s))
                      (\<lambda>rows. Inr (s\<lparr>entity_property_tbl := rows\<rparr>))
                | None \<Rightarrow> create_property_manual env keep prop s)
          else create_property_manual env keep prop s)"

definition tx_delete_properties_manual :: "entity_included list \<Rightarrow> store \<Rightarrow> prisma_error + store" where
  "tx_delete_properties_manual removedEntities s =
     (let propertiesToDelete = map entity_property_id (concat (map entity_property removedEntities))
      in if length propertiesToDelete > 0
         then Inr (s\<lparr>entity_property_tbl :=
                     prisma_deleteMany (\<lambda>p. entity_property_id p \<in> set propertiesToDelete)
                       (entity_property_tbl s)\<rparr>)
         else Inr s)"

definition tx_soft_delete_entities_manual :: "env \<Rightarrow> int list \<Rightarrow> store \<Rightarrow> prisma_error + store" where
  "tx_soft_delete_entities_manual env remove_ids s =
     Inr (s\<lparr>entity_tbl :=
            prisma_updateMany (\<lambda>e. entity_id e \<in> set remove_ids)
              (\<lambda>e. e\<lparr>is_deleted := True, deleted_at := Some (now env)\<rparr>) (entity_tbl s)\<rparr>)"

definition tx_write_audit_manual ::
  "env \<Rightarrow> int \<Rightarrow> int list \<Rightarrow> person_payload list \<Rightarrow> address_payload list \<Rightarrow> entity_included
     \<Rightarrow> store \<Rightarrow> prisma_error + store" where
  "tx_write_audit_manual env keep remove_ids mergedPeople mergedAddresses keptEntity s =
     (let path = ''logs/'' @ (case name keptEntity of None \<Rightarrow> ''null'' | Some n \<Rightarrow> n)
                   @ ''-'' @ show_int (now env);
          entry = \<lparr>au_action = ''ENTITY_MERGE'', au_entity_type = ''entity'',
                     au_entity_id = keep,
                     au_old_value = ''Merged from '' @ show_nat (length remove_ids) @ '' duplicates'',
                     au_new_value = ''Merged entity updated with '' @ show_nat (length mergedPeople)
                        @ '' people, '' @ show_nat (length mergedAddresses) @ '' addresses'',
                     au_note = ''Applied client-submitted merge plan'',
                     au_created_at = now env\<rparr>
      in if writable env path then Inr (s\<lparr>log_files := log_files s @ [(path, entry)]\<rparr>)
         else Inl (WriteFileError path))"

definition merge_transaction_manual ::
  "env \<Rightarrow> int \<Rightarrow> int list \<Rightarrow> string option \<Rightarrow> string option option \<Rightarrow> person_payload list
     \<Rightarrow> address_payload list \<Rightarrow> property_payload list \<Rightarrow> entity_included
     \<Rightarrow> entity_included list \<Rightarrow> store \<Rightarrow> prisma_error + store" where
  "merge_transaction_manual env keep remove_ids new_name new_trade_name mergedPeople mergedAddresses
       mergedProps keptEntity removedEntities =
     for_of (\<lambda>step. step)
       [tx_update_kept_manual env keep new_name new_trade_name keptEntity,
        for_of (upsert_person_manual env keep keptEntity) mergedPeople,
        tx_delete_people_manual env removedEntities,
        for_of (upsert_address_manual env keep keptEntity) mergedAddresses,
        tx_delete_addresses_manual env removedEntities,
        tx_clear_properties_manual keep,
        for_of (upsert_property_manual env keep keptEntity) mergedProps,
        tx_delete_properties_manual removedEntities,
        tx_soft_delete_entities_manual env remove_ids,
        tx_write_audit_manual env keep remove_ids mergedPeople mergedAddresses keptEntity]"

definition applyEntitiesDuplicateMergeManuallyController ::
  "env \<Rightarrow> ApplyMergePayload \<Rightarrow> store \<Rightarrow> (route_error + merge_response) \<times> store" where
  "applyEntitiesDuplicateMergeManuallyController env payload s =
     (case validate_payload_manual payload of
        Inl e \<Rightarrow> (Inl e, s)
      | Inr (keep, remove_ids, mergedPeople, mergedAddresses, mergedProps) \<Rightarrow>
          (case fetch_involved_manual s keep remove_ids of
             Inl e \<Rightarrow> (Inl e, s)
           | Inr (keptEntity, removedEntities) \<Rightarrow>
               (case merge_transaction_manual env keep remove_ids (me_name (merged_entity payload))
                       (me_trade_name (merged_entity payload)) mergedPeople mergedAddresses
                       mergedProps keptEntity removedEntities s of
                  Inl error \<Rightarrow>
                    (Inl (BadRequest (''Failed to apply merge: '' @ error_message error)), s)
                | Inr s' \<Rightarrow>
                    (Inr \<lparr>merged_entity_id = keep, deleted_entity_ids = remove_ids,
                          applied = True\<rparr>, s'))))"

text \<open>The two routes of the router.\<close>

definition post_route ::
  "string \<Rightarrow> (env \<Rightarrow> ApplyMergePayload \<Rightarrow> store \<Rightarrow> (route_error + merge_response) \<times> store) option" where
  "post_route path =
     (if path = ''/entities/resolve-duplicates'' then Some applyEntitiesDuplicateMergeController
      else if path = ''/entities/resolve-duplicates/manual''
      then Some applyEntitiesDuplicateMergeManuallyController
      else None)"

text \<open>The primary key of the entity table is unique; an entity exists and is not deleted.\<close>

definition entity_pk :: "store \<Rightarrow> bool" where
  "entity_pk s = distinct (map entity_id (entity_tbl s))"

definition live :: "store \<Rightarrow> int \<Rightarrow> bool" where
  "live s i = list_ex (\<lambda>e. entity_id e = i \<and> \<not> is_deleted e) (entity_tbl s)"

text \<open>The message of the count check, naming the identifiers that are missing or deleted.\<close>

definition not_found_message :: "store \<Rightarrow> int list \<Rightarrow> string" where
  "not_found_message s ids =
     ''Invalid entity IDs: '' @ join '', '' (map show_int (filter (\<lambda>i. \<not> live s i) ids))
       @ '' not found or already deleted''"

text \<open>A sample store and request.\<close>

definition ex_env :: env where
  "ex_env = \<lparr>now = 1000, writable = (\<lambda>path. True)\<rparr>"

definition ex_store :: store where
  "ex_store = \<lparr>entity_tbl = [mk_entity 1 ''Acme'' 2, mk_entity 2 ''Acme'' 2,
        (mk_entity 3 ''Acme'' 2)\<lparr>is_deleted := True, deleted_at := Some 500\<rparr>],
     people_tbl = [mk_person 10 1 ''Jo'' (Some ''Smith''), mk_person 11 2 ''Jo'' (Some ''Smith'')],
     address_tbl = [],
     entity_property_tbl = [mk_property 5 1 7 ''a@x.com'' ''No'', mk_property 6 1 8 ''555'' ''No'',
        mk_property 7 2 7 ''b@x.com'' ''Yes''],
     people_seq = 12, address_seq = 1, entity_property_seq = 8, log_files = []\<rparr>"

definition mk_payload :: "int \<Rightarrow> int list \<Rightarrow> person_payload list \<Rightarrow> address_payload list \<Rightarrow> property_payload list \<Rightarrow> ApplyMergePayload" where
  "mk_payload keep remove_ids ps as prs =
     \<lparr>keep_entity_id = Some keep, remove_entity_ids = Some remove_ids,
      merged_entity = \<lparr>me_name = None, me_trade_name = None, me_people = Some ps,
         me_address = Some as, me_properties = Some prs\<rparr>\<rparr>"

definition mk_property_payload :: "int option \<Rightarrow> int \<Rightarrow> string \<Rightarrow> string \<Rightarrow> property_payload" where
  "mk_property_payload i t v p = \<lparr>pr_entity_property_id = i, pr_property_id = t,
     pr_property_value = Some v, pr_is_primary = Some p, pr_created_at = DateAbsent\<rparr>"

definition ex_person_payload :: person_payload where
  "ex_person_payload = \<lparr>pp_people_id = Some 10, pp_first_name = Some ''Jo'', pp_last_name = Some ''Smith'',
     pp_date_of_birth = DateUnparseable, pp_created_at = DateAbsent, pp_deleted_at = None\<rparr>"

definition ex_address_payload :: address_payload where
  "ex_address_payload = \<lparr>ap_address_id = None, ap_location = ''1 Main St'', ap_is_primary = Some ''Yes'',
     ap_created_at = DateAbsent, ap_deleted_at = None\<rparr>"

text \<open>What the transaction makes of one row of the entity table.\<close>

definition merged_row ::
  "env \<Rightarrow> int \<Rightarrow> int list \<Rightarrow> string option \<Rightarrow> string option option \<Rightarrow> entity_included
     \<Rightarrow> entity_row \<Rightarrow> entity_row" where
  "merged_row env keep remove_ids new_name new_trade_name keptEntity e =
     (let e1 = (if entity_id e = keep
                then e\<lparr>name := (case new_name of None \<Rightarrow> name keptEntity | Some n \<Rightarrow> Some n),
                       trade_name := (case new_trade_name of None \<Rightarrow> trade_name e | Some t \<Rightarrow> t),
                       updated_at := Some (now env)\<rparr>
                else e)
      in if entity_id e1 \<in> set remove_ids
         then e1\<lparr>is_deleted := True, deleted_at := Some (now env)\<rparr> else e1)"

definition ex_payload :: ApplyMergePayload where
  "ex_payload = mk_payload 1 [2] [ex_person_payload] [ex_address_payload]
     [mk_property_payload None 7 ''b@x.com'' ''Yes'']"

definition property_pk :: "store \<Rightarrow> bool" where
  "property_pk s = (distinct (map entity_property_id (entity_property_tbl s))
     \<and> list_all (\<lambda>p. entity_property_id p < entity_property_seq s) (entity_property_tbl s))"

text \<open>During the property loop no row carries an identifier of the set, nor will a new row.\<close>

definition ids_gone :: "int set \<Rightarrow> store \<Rightarrow> bool" where
  "ids_gone K t = ((\<forall>p \<in> set (entity_property_tbl t). entity_property_id p \<notin> K)
     \<and> (\<forall>i \<in> K. i < entity_property_seq t))"

definition ex_payload_existing_property :: ApplyMergePayload where
  "ex_payload_existing_property = mk_payload 1 [2] [] []
     [mk_property_payload (Some 5) 7 ''b@x.com'' ''Yes'']"

text \<open>What a property row and a supplied property say, apart from identifiers and times.\<close>

definition row_content :: "property_row \<Rightarrow> int \<times> string option \<times> string option" where
  "row_content p = (property_id p, property_value p, is_primary p)"

definition supplied_content :: "property_payload \<Rightarrow> int \<times> string option \<times> string option" where
  "supplied_content q = (pr_property_id q, pr_property_value q, pr_is_primary q)"

text \<open>Entities named by one space, and three groups of duplicates.\<close>

definition ex_blank_entities :: "entity_row list" where
  "ex_blank_entities = [mk_entity 1 '' '' 2, mk_entity 2 '' '' 2]"


section \<open>Properties of the JavaScript map\<close>

lemma map_of_Map_set: "map_of (Map_set k v m) = (map_of m)(k \<mapsto> v)"
  by (induction m) (auto simp: fun_eq_iff)

lemma keys_Map_set:
  "map fst (Map_set k v m) = (if k \<in> fst ` set m then map fst m else map fst m @ [k])"
  by (induction m) auto

lemma distinct_Map_set: "distinct (map fst m) \<Longrightarrow> distinct (map fst (Map_set k v m))"
  by (simp add: keys_Map_set)

lemma Map_has_iff: "Map_has m k \<longleftrightarrow> map_of m k \<noteq> None"
  by (simp add: Map_has_def map_of_eq_None_iff)

section \<open>Properties of the candidate grouper\<close>

lemma step_map_of:
  "map_of (nameGroups_step k x m) =
     (if k = [] then map_of m else (map_of m)(k \<mapsto> grp m k @ [x]))"
  by (auto simp: nameGroups_step_def Map_has_iff Map_get_def Let_def map_of_Map_set grp_def
        fun_eq_iff split: option.splits)

lemma step_distinct: "distinct (map fst m) \<Longrightarrow> distinct (map fst (nameGroups_step k x m))"
  by (auto simp: nameGroups_step_def Let_def distinct_Map_set split: option.splits)

lemma step_grp:
  "grp (nameGroups_step k x m) k' = (if k \<noteq> [] \<and> k' = k then grp m k' @ [x] else grp m k')"
  by (simp add: grp_def step_map_of)

lemma step_ok: "groups_ok m \<Longrightarrow> groups_ok (nameGroups_step k x m)"
  unfolding groups_ok_def by (auto simp: step_distinct step_map_of split: if_splits)

lemma foldl_ok:
  "groups_ok m \<Longrightarrow> groups_ok (foldl (\<lambda>m x. nameGroups_step (key x) x m) m xs)"
  by (induction xs arbitrary: m) (simp_all add: step_ok)

lemma foldl_grp:
  "grp (foldl (\<lambda>m x. nameGroups_step (key x) x m) m xs) k =
     grp m k @ filter (\<lambda>x. key x = k \<and> k \<noteq> []) xs"
  by (induction xs arbitrary: m) (auto simp: step_grp)

lemma build_ok: "groups_ok (build_nameGroups key xs)"
  unfolding build_nameGroups_def by (rule foldl_ok) (simp add: groups_ok_def)

lemma build_grp: "grp (build_nameGroups key xs) k = filter (\<lambda>x. key x = k \<and> k \<noteq> []) xs"
proof -
  have "grp ([] :: (string, 'a list) js_map) k = []" by (simp add: grp_def)
  then show ?thesis unfolding build_nameGroups_def by (simp add: foldl_grp)
qed

text \<open>Every entry of the map holds exactly the records of its key, and is not empty.\<close>

lemma build_member:
  assumes "(k, g) \<in> set (build_nameGroups key xs)"
  shows "k \<noteq> [] \<and> g \<noteq> [] \<and> g = filter (\<lambda>x. key x = k) xs"
proof -
  have ok: "groups_ok (build_nameGroups key xs)" by (rule build_ok)
  then have m: "map_of (build_nameGroups key xs) k = Some g"
    using assms by (simp add: groups_ok_def)
  with ok have ne: "k \<noteq> []" "g \<noteq> []" by (auto simp: groups_ok_def)
  from m have "grp (build_nameGroups key xs) k = g" by (simp add: grp_def)
  with ne show ?thesis by (simp add: build_grp)
qed

lemma build_get:
  assumes "x \<in> set xs" "key x \<noteq> []"
  shows "Map_get (build_nameGroups key xs) (key x) = Some (filter (\<lambda>y. key y = key x) xs)"
proof -
  have g: "grp (build_nameGroups key xs) (key x) = filter (\<lambda>y. key y = key x) xs"
    using assms by (simp add: build_grp)
  have "filter (\<lambda>y. key y = key x) xs \<noteq> []"
    using assms by (auto simp: filter_empty_conv)
  with g show ?thesis
    by (auto simp: grp_def Map_get_def split: option.splits dest: build_member[OF map_of_SomeD])
qed

lemma grouped_under_build:
  "grouped_under (build_nameGroups key xs) k x \<longleftrightarrow> x \<in> set xs \<and> k \<noteq> [] \<and> key x = k"
proof
  assume "grouped_under (build_nameGroups key xs) k x"
  then obtain g where g: "map_of (build_nameGroups key xs) k = Some g" and x: "x \<in> set g"
    by (auto simp: grouped_under_def Map_get_def split: option.splits)
  from build_member[OF map_of_SomeD[OF g]] x
  show "x \<in> set xs \<and> k \<noteq> [] \<and> key x = k" by auto
next
  assume "x \<in> set xs \<and> k \<noteq> [] \<and> key x = k"
  then show "grouped_under (build_nameGroups key xs) k x"
    using build_get[of x xs key] by (auto simp: grouped_under_def)
qed

lemma spec_normalized_eq: "spec_normalized s = norm_name s"
  by (cases s) (simp_all add: norm_name_def spec_normalized_def toLowerCase_def)

lemma fullName_spec: "fullName p = spec_person_key (first_name p) (last_name p)"
  by (simp add: fullName_def spec_person_key_def spec_normalized_eq Let_def)


text \<open>
  Claim C6, as the code has it. A person is grouped under the key the specification
  describes: first and last name, each trimmed and lowercased, the non-empty ones joined
  by one space; people without a first name are not read. An entity is grouped under its
  name as stored, neither trimmed nor lowercased, by both entity groupers. In each case
  a record is held under a key exactly when it was selected, the key is not empty and the
  key is the one described.
\<close>

theorem grouping_keys:
  "(grouped_under (people_nameGroups ptbl) k p \<longleftrightarrow>
      p \<in> set ptbl \<and> first_name p \<noteq> None \<and> k \<noteq> [] \<and>
      k = spec_person_key (first_name p) (last_name p))
   \<and> (grouped_under (entity_nameGroups_typed t etbl) k' e \<longleftrightarrow>
      e \<in> set etbl \<and> etype e = t \<and> \<not> is_deleted e \<and> deleted_at e = None \<and> k' \<noteq> [] \<and>
      name e = Some k')
   \<and> (grouped_under (entity_nameGroups_fixed etbl') k'' e' \<longleftrightarrow>
      e' \<in> set etbl' \<and> etype e' = 2 \<and> \<not> is_deleted e' \<and> k'' \<noteq> [] \<and> name e' = Some k'')"
proof -
  have key: "\<And>e k. k \<noteq> [] \<Longrightarrow> (entity_name_key e = k) = (name e = Some k)"
    by (auto simp: entity_name_key_def split: option.splits)
  have 1: "grouped_under (people_nameGroups ptbl) k p \<longleftrightarrow>
      p \<in> set ptbl \<and> first_name p \<noteq> None \<and> k \<noteq> [] \<and>
      k = spec_person_key (first_name p) (last_name p)"
    unfolding people_nameGroups_def grouped_under_build fullName_spec by auto
  have 2: "grouped_under (entity_nameGroups_typed t etbl) k' e \<longleftrightarrow>
      e \<in> set etbl \<and> etype e = t \<and> \<not> is_deleted e \<and> deleted_at e = None \<and> k' \<noteq> [] \<and>
      name e = Some k'"
    unfolding entity_nameGroups_typed_def grouped_under_build using key by auto
  have 3: "grouped_under (entity_nameGroups_fixed etbl') k'' e' \<longleftrightarrow>
      e' \<in> set etbl' \<and> etype e' = 2 \<and> \<not> is_deleted e' \<and> k'' \<noteq> [] \<and> name e' = Some k''"
    unfolding entity_nameGroups_fixed_def grouped_under_build using key by auto
  from 1 2 3 show ?thesis by blast
qed

theorem grouping_keys_witness:
  "grouped_under (people_nameGroups ex_people) ''jo smith'' (mk_person 1 1 '' Jo'' (Some ''Smith''))
   \<and> grouped_under (entity_nameGroups_typed 2 ex_entities) ''acme '' (mk_entity 3 ''acme '' 2)
   \<and> grouped_under (entity_nameGroups_fixed ex_entities) ''Acme'' (mk_entity 2 ''Acme'' 2)"
proof -
  have k: "spec_person_key (Some '' Jo'') (Some ''Smith'') = ''jo smith''"
    by code_simp
  show ?thesis
    using grouping_keys [of ex_people "''jo smith''" "mk_person 1 1 '' Jo'' (Some ''Smith'')"
        2 ex_entities "''acme ''" "mk_entity 3 ''acme '' 2"
        ex_entities "''Acme''" "mk_entity 2 ''Acme'' 2"]
    by (simp add: k ex_people_def ex_entities_def mk_person_def mk_entity_def)
qed

text \<open>
  The claim as worded fails for entities: the entity named \<open>acme\<close> followed by a space
  is held under that very name, not under its trimmed and lowercased form.
\<close>

theorem grouping_key_counterexample:
  "mk_entity 3 ''acme '' 2 \<in> set ex_entities
   \<and> spec_normalized (name (mk_entity 3 ''acme '' 2)) = ''acme''
   \<and> \<not> grouped_under (entity_nameGroups_typed 2 ex_entities) ''acme'' (mk_entity 3 ''acme '' 2)
   \<and> grouped_under (entity_nameGroups_typed 2 ex_entities) ''acme '' (mk_entity 3 ''acme '' 2)"
  by code_simp

text \<open>
  Claim C7, as the code has it: every name the groupers emit is the key of a group of
  two members or more, all members of the group share that key, and the key is a
  non-empty string. For people the key is the normalized key of the specification
  (first and last name, trimmed, lowercased and joined). For entities the key is the
  name as stored: the members share it, hence also its trimmed and lowercased form, and
  it is the stored name that is not empty. The count reported with an entity name is the
  size of its group.
\<close>

theorem emitted_groups:
  "(\<forall>k \<in> set (getDuplicatePeopleByFullNameController ptbl).
      k \<noteq> [] \<and>
      (\<exists>g. Map_get (people_nameGroups ptbl) k = Some g \<and> 2 \<le> length g \<and>
           (\<forall>p \<in> set g. fullName p = k \<and> spec_person_key (first_name p) (last_name p) = k)))
   \<and> (\<forall>k \<in> set (getDuplicateEntitiesByFullNameController etbl').
      k \<noteq> [] \<and>
      (\<exists>g. Map_get (entity_nameGroups_fixed etbl') k = Some g \<and> 2 \<le> length g \<and>
           (\<forall>e \<in> set g. name e = Some k \<and> spec_normalized (name e) = spec_normalized (Some k))))
   \<and> (\<forall>d \<in> set (all_duplicateGroups t etbl).
      dg_name d \<noteq> [] \<and> 2 \<le> duplicateCount d \<and>
      (\<exists>g. Map_get (entity_nameGroups_typed t etbl) (dg_name d) = Some g \<and>
           length g = duplicateCount d \<and>
           (\<forall>e \<in> set g. name e = Some (dg_name d) \<and>
               spec_normalized (name e) = spec_normalized (Some (dg_name d)))))"
proof -
  have gen: "k \<noteq> [] \<and> Map_get (build_nameGroups key xs) k = Some g \<and> (\<forall>x \<in> set g. key x = k)"
    if "(k, g) \<in> set (build_nameGroups key xs)" for k g and key :: "'a \<Rightarrow> string" and xs
  proof -
    have "distinct (map fst (build_nameGroups key xs))"
      using build_ok[of key xs] by (simp add: groups_ok_def)
    then have "Map_get (build_nameGroups key xs) k = Some g"
      using that by (simp add: Map_get_def)
    moreover have "k \<noteq> [] \<and> g = filter (\<lambda>x. key x = k) xs"
      using build_member[OF that] by simp
    ultimately show ?thesis by auto
  qed
  have nm: "name e = Some k \<and> spec_normalized (name e) = spec_normalized (Some k)"
    if "entity_name_key e = k" "k \<noteq> []" for e k
    using that by (auto simp: entity_name_key_def split: option.splits)
  have 1: "\<forall>k \<in> set (getDuplicatePeopleByFullNameController ptbl).
      k \<noteq> [] \<and>
      (\<exists>g. Map_get (people_nameGroups ptbl) k = Some g \<and> 2 \<le> length g \<and>
           (\<forall>p \<in> set g. fullName p = k \<and> spec_person_key (first_name p) (last_name p) = k))"
    unfolding getDuplicatePeopleByFullNameController_def people_nameGroups_def
    using gen fullName_spec by fastforce
  have 2: "\<forall>k \<in> set (getDuplicateEntitiesByFullNameController etbl').
      k \<noteq> [] \<and>
      (\<exists>g. Map_get (entity_nameGroups_fixed etbl') k = Some g \<and> 2 \<le> length g \<and>
           (\<forall>e \<in> set g. name e = Some k \<and> spec_normalized (name e) = spec_normalized (Some k)))"
  proof
    fix k assume "k \<in> set (getDuplicateEntitiesByFullNameController etbl')"
    then obtain g where m: "(k, g) \<in> set (entity_nameGroups_fixed etbl')" and l: "2 \<le> length g"
      by (auto simp: getDuplicateEntitiesByFullNameController_def)
    from gen[OF m[unfolded entity_nameGroups_fixed_def]]
    have k: "k \<noteq> []" and g: "Map_get (entity_nameGroups_fixed etbl') k = Some g"
      and a: "\<forall>x \<in> set g. entity_name_key x = k"
      by (simp_all add: entity_nameGroups_fixed_def)
    from a k nm have "\<forall>e \<in> set g. name e = Some k \<and> spec_normalized (name e) = spec_normalized (Some k)"
      by blast
    with k g l show "k \<noteq> [] \<and>
      (\<exists>g. Map_get (entity_nameGroups_fixed etbl') k = Some g \<and> 2 \<le> length g \<and>
           (\<forall>e \<in> set g. name e = Some k \<and> spec_normalized (name e) = spec_normalized (Some k)))"
      by blast
  qed
  have 3: "\<forall>d \<in> set (all_duplicateGroups t etbl).
      dg_name d \<noteq> [] \<and> 2 \<le> duplicateCount d \<and>
      (\<exists>g. Map_get (entity_nameGroups_typed t etbl) (dg_name d) = Some g \<and>
           length g = duplicateCount d \<and>
           (\<forall>e \<in> set g. name e = Some (dg_name d) \<and>
               spec_normalized (name e) = spec_normalized (Some (dg_name d))))"
  proof
    fix d assume "d \<in> set (all_duplicateGroups t etbl)"
    then obtain k g where m: "(k, g) \<in> set (entity_nameGroups_typed t etbl)" and l: "2 \<le> length g"
      and d: "d = \<lparr>dg_name = k, duplicateCount = length g\<rparr>"
      by (auto simp: all_duplicateGroups_def)
    from gen[OF m[unfolded entity_nameGroups_typed_def]]
    have k: "k \<noteq> []" and g: "Map_get (entity_nameGroups_typed t etbl) k = Some g"
      and a: "\<forall>x \<in> set g. entity_name_key x = k"
      by (simp_all add: entity_nameGroups_typed_def)
    from a k nm have "\<forall>e \<in> set g. name e = Some k \<and> spec_normalized (name e) = spec_normalized (Some k)"
      by blast
    with k g l d show "dg_name d \<noteq> [] \<and> 2 \<le> duplicateCount d \<and>
      (\<exists>g. Map_get (entity_nameGroups_typed t etbl) (dg_name d) = Some g \<and>
           length g = duplicateCount d \<and>
           (\<forall>e \<in> set g. name e = Some (dg_name d) \<and>
               spec_normalized (name e) = spec_normalized (Some (dg_name d))))"
      by auto
  qed
  from 1 2 3 show ?thesis by blast
qed

theorem emitted_groups_witness:
  "''jo smith'' \<in> set (getDuplicatePeopleByFullNameController ex_people)
   \<and> ''Acme'' \<in> set (getDuplicateEntitiesByFullNameController ex_entities)
   \<and> \<lparr>dg_name = ''Acme'', duplicateCount = 2\<rparr> \<in> set (all_duplicateGroups 2 ex_entities)
   \<and> Map_get (people_nameGroups ex_people) ''jo smith''
        = Some [mk_person 1 1 '' Jo'' (Some ''Smith''), mk_person 2 2 ''JO '' (Some ''smith '')]
   \<and> fullName (mk_person 1 1 '' Jo'' (Some ''Smith'')) = ''jo smith''
   \<and> fullName (mk_person 2 2 ''JO '' (Some ''smith '')) = ''jo smith''
   \<and> Map_get (entity_nameGroups_fixed ex_entities) ''Acme''
        = Some [mk_entity 1 ''Acme'' 2, mk_entity 2 ''Acme'' 2]
   \<and> Map_get (entity_nameGroups_typed 2 ex_entities) ''Acme''
        = Some [mk_entity 1 ''Acme'' 2, mk_entity 2 ''Acme'' 2]
   \<and> name (mk_entity 1 ''Acme'' 2) = Some ''Acme''
   \<and> name (mk_entity 2 ''Acme'' 2) = Some ''Acme''"
proof -
  have a: "''jo smith'' \<in> set (getDuplicatePeopleByFullNameController ex_people)"
    by code_simp
  have b: "''Acme'' \<in> set (getDuplicateEntitiesByFullNameController ex_entities)"
    by code_simp
  have c: "\<lparr>dg_name = ''Acme'', duplicateCount = 2\<rparr> \<in> set (all_duplicateGroups 2 ex_entities)"
    by code_simp
  have g1: "Map_get (people_nameGroups ex_people) ''jo smith''
        = Some [mk_person 1 1 '' Jo'' (Some ''Smith''), mk_person 2 2 ''JO '' (Some ''smith '')]"
    by code_simp
  have g2: "Map_get (entity_nameGroups_fixed ex_entities) ''Acme''
        = Some [mk_entity 1 ''Acme'' 2, mk_entity 2 ''Acme'' 2]"
    by code_simp
  have g3: "Map_get (entity_nameGroups_typed 2 ex_entities) ''Acme''
        = Some [mk_entity 1 ''Acme'' 2, mk_entity 2 ''Acme'' 2]"
    by code_simp
  from a b c g1 g2 g3 emitted_groups [of ex_people ex_entities 2 ex_entities]
  show ?thesis by force
qed

text \<open>
  The claim as worded fails for entities: two entities whose name is one space are
  emitted as a group, and the trimmed, lowercased form of that name is empty.
\<close>

theorem emitted_group_blank_key_counterexample:
  "getDuplicateEntitiesByFullNameController ex_blank_entities = ['' '']
   \<and> all_duplicateGroups 2 ex_blank_entities = [\<lparr>dg_name = '' '', duplicateCount = 2\<rparr>]
   \<and> spec_normalized (name (mk_entity 1 '' '' 2)) = []
   \<and> spec_normalized (name (mk_entity 2 '' '' 2)) = []"
  by code_simp


lemma total_is_full_count:
  "getDuplicateEntitiesByNameWithTypeController rnd (TypeParsed t) q tbl = Inr r \<Longrightarrow>
     pg_total (pagination r) = length (all_duplicateGroups t tbl)"
  by (auto simp: getDuplicateEntitiesByNameWithTypeController_def Let_def
        split: sum.splits if_splits)





section \<open>Decimal rendering is injective\<close>











section \<open>Properties of the property map\<close>



lemma key_of_update [simp]:
  "key_of (e\<lparr>is_primary := x\<rparr>) = key_of e"
  "key_of (e\<lparr>ep_entity_id := y\<rparr>) = key_of e"
  "contributes (e\<lparr>is_primary := x\<rparr>) = contributes e"
  "contributes (e\<lparr>ep_entity_id := y\<rparr>) = contributes e"
  by (simp_all add: key_of_def contributes_def split: option.splits)











section \<open>Properties of the merge validator\<close>

lemma and_then_Inr: "and_then m f = Inr b \<longleftrightarrow> (\<exists>a. m = Inr a \<and> f a = Inr b)"
  by (cases m) (simp_all add: and_then_def)

lemma entity_id_include [simp]: "entity_id (include_relations s e) = entity_id e"
  by (simp add: include_relations_def entity_row.defs)

lemma is_deleted_include [simp]: "is_deleted (include_relations s e) = is_deleted e"
  by (simp add: include_relations_def entity_row.defs)

lemma live_iff: "live s i \<longleftrightarrow> (\<exists>e \<in> set (entity_tbl s). entity_id e = i \<and> \<not> is_deleted e)"
  by (simp add: live_def list_ex_iff)

lemma found_ids:
  "map entity_id (findMany_entities s ids) =
     map entity_id (filter (\<lambda>e. entity_id e \<in> set ids \<and> \<not> is_deleted e) (entity_tbl s))"
  by (simp add: findMany_entities_def comp_def)

lemma found_set: "set (map entity_id (findMany_entities s ids)) = {i \<in> set ids. live s i}"
  unfolding found_ids by (auto simp: live_iff)

lemma found_distinct: "entity_pk s \<Longrightarrow> distinct (map entity_id (findMany_entities s ids))"
  unfolding found_ids entity_pk_def by (simp add: distinct_map_filter)

lemma found_length:
  assumes "entity_pk s"
  shows "length (findMany_entities s ids) = card {i \<in> set ids. live s i}"
proof -
  have "length (findMany_entities s ids) = length (map entity_id (findMany_entities s ids))"
    by simp
  also have "\<dots> = card (set (map entity_id (findMany_entities s ids)))"
    using found_distinct[OF assms] by (simp only: distinct_card)
  finally show ?thesis by (simp only: found_set)
qed

lemma found_le: "entity_pk s \<Longrightarrow> length (findMany_entities s ids) \<le> length ids"
proof -
  assume pk: "entity_pk s"
  have "card {i \<in> set ids. live s i} \<le> card (set ids)" by (rule card_mono) auto
  also have "\<dots> \<le> length ids" by (rule card_length)
  finally show ?thesis using found_length[OF pk] by simp
qed

lemma found_all_iff:
  assumes "entity_pk s"
  shows "length (findMany_entities s ids) = length ids \<longleftrightarrow>
           distinct ids \<and> (\<forall>i \<in> set ids. live s i)"
proof
  assume eq: "length (findMany_entities s ids) = length ids"
  have le1: "card {i \<in> set ids. live s i} \<le> card (set ids)" by (rule card_mono) auto
  have le2: "card (set ids) \<le> length ids" by (rule card_length)
  from eq found_length[OF assms] le1 le2
  have c1: "card (set ids) = length ids" and c2: "card {i \<in> set ids. live s i} = card (set ids)"
    by simp_all
  from c1 have d: "distinct ids" by (rule card_distinct)
  have "{i \<in> set ids. live s i} = set ids"
    by (rule card_subset_eq) (use c2 in auto)
  with d show "distinct ids \<and> (\<forall>i \<in> set ids. live s i)" by auto
next
  assume a: "distinct ids \<and> (\<forall>i \<in> set ids. live s i)"
  then have "{i \<in> set ids. live s i} = set ids" by auto
  with a show "length (findMany_entities s ids) = length ids"
    using found_length[OF assms, of ids] by (simp add: distinct_card)
qed

lemma fetch_rejects:
  assumes "entity_pk s" "\<not> (distinct (keep # remove_ids) \<and> (\<forall>i \<in> set (keep # remove_ids). live s i))"
  shows "fetch_involved s keep remove_ids = Inl (BadRequest (not_found_message s (keep # remove_ids)))"
proof -
  have ne: "length (findMany_entities s (keep # remove_ids)) \<noteq> length (keep # remove_ids)"
    using found_all_iff[OF assms(1), of "keep # remove_ids"] assms(2) by blast
  have "filter (\<lambda>id. id \<notin> set (map entity_id (findMany_entities s (keep # remove_ids)))) (keep # remove_ids)
      = filter (\<lambda>i. \<not> live s i) (keep # remove_ids)"
    unfolding found_set by (rule filter_cong) auto
  with ne show ?thesis
    by (simp add: fetch_involved_def Let_def not_found_message_def del: set_map list.map)
qed

lemma fetch_accepts:
  assumes "entity_pk s" "fetch_involved s keep remove_ids = Inr (keptEntity, removedEntities)"
  shows "distinct (keep # remove_ids) \<and> (\<forall>i \<in> set (keep # remove_ids). live s i)"
  using fetch_rejects[OF assms(1), of keep remove_ids] assms(2) by auto

lemma validate_Inr:
  "validate_payload payload = Inr (keep, remove_ids, ps, as, prs) \<Longrightarrow>
     keep_entity_id payload = Some keep \<and> remove_entity_ids payload = Some remove_ids \<and>
     keep \<noteq> 0 \<and> remove_ids \<noteq> [] \<and> keep \<notin> set remove_ids \<and>
     me_people (merged_entity payload) = Some ps \<and> me_address (merged_entity payload) = Some as \<and>
     me_properties (merged_entity payload) = Some prs"
  by (auto simp: validate_payload_def split: option.splits if_splits)

lemma controller_validation_error:
  "validate_payload payload = Inl e \<Longrightarrow> applyEntitiesDuplicateMergeController env payload s = (Inl e, s)"
  by (simp add: applyEntitiesDuplicateMergeController_def)

lemma controller_fetch_error:
  "validate_payload payload = Inr (keep, remove_ids, ps, as, prs) \<Longrightarrow>
   fetch_involved s keep remove_ids = Inl e \<Longrightarrow>
   applyEntitiesDuplicateMergeController env payload s = (Inl e, s)"
  by (simp add: applyEntitiesDuplicateMergeController_def)

section \<open>Claims about the merge validator\<close>

text \<open>
  Claim C4: a request whose \<open>keep_entity_id\<close> is among its \<open>remove_entity_ids\<close> is
  refused with a validation error (the one for a missing \<open>keep_entity_id\<close> when that
  identifier is 0, the one for this very check otherwise), and the store is left as it was.
\<close>

theorem keep_in_remove_rejected:
  assumes "keep_entity_id payload = Some keep"
    and "remove_entity_ids payload = Some remove_ids"
    and "keep \<in> set remove_ids"
  shows "applyEntitiesDuplicateMergeController env payload s =
     (Inl (BadRequest (if keep = 0 then ''Field 'keep_entity_id' is required''
                       else CHR 0x27 # ''keep_entity_id' cannot be in 'remove_entity_ids'' @ [CHR 0x27])), s)"
proof -
  have ne: "remove_ids \<noteq> []" using assms(3) by auto
  have "validate_payload payload =
      Inl (BadRequest (if keep = 0 then ''Field 'keep_entity_id' is required''
                       else CHR 0x27 # ''keep_entity_id' cannot be in 'remove_entity_ids'' @ [CHR 0x27]))"
    using assms ne by (simp add: validate_payload_def)
  then show ?thesis by (rule controller_validation_error)
qed

theorem keep_in_remove_rejected_witness:
  "applyEntitiesDuplicateMergeController ex_env (mk_payload 1 [2, 1] [] [] []) ex_store =
     (Inl (BadRequest (CHR 0x27 # ''keep_entity_id' cannot be in 'remove_entity_ids'' @ [CHR 0x27])), ex_store)"
  using keep_in_remove_rejected [of "mk_payload 1 [2, 1] [] [] []" 1 "[2, 1]" ex_env ex_store]
  by (simp add: mk_payload_def)

text \<open>
  Claim C5: when the primary key of the entity table is unique and some identifier of
  the request names no entity that exists and is not deleted, the request is refused and
  the store is left as it was. A request that fails an earlier check of the body gets
  the error of that check; every other request gets the error of the count check, whose
  message lists exactly the identifiers of the request that are missing or deleted, and
  that list is not empty. The source throws \<open>RouteError.BadRequest\<close> for this error as
  for the others.
\<close>

theorem missing_entity_rejected:
  assumes "entity_pk s"
    and "keep_entity_id payload = Some keep"
    and "remove_entity_ids payload = Some remove_ids"
    and "\<exists>i \<in> set (keep # remove_ids). \<not> live s i"
  shows "filter (\<lambda>i. \<not> live s i) (keep # remove_ids) \<noteq> []
     \<and> applyEntitiesDuplicateMergeController env payload s =
        (case validate_payload payload of
           Inl e \<Rightarrow> (Inl e, s)
         | Inr v \<Rightarrow> (Inl (BadRequest (not_found_message s (keep # remove_ids))), s))"
proof -
  have 1: "filter (\<lambda>i. \<not> live s i) (keep # remove_ids) \<noteq> []"
    using assms(4) by (simp only: filter_empty_conv) blast
  have 2: "applyEntitiesDuplicateMergeController env payload s =
        (case validate_payload payload of
           Inl e \<Rightarrow> (Inl e, s)
         | Inr v \<Rightarrow> (Inl (BadRequest (not_found_message s (keep # remove_ids))), s))"
  proof (cases "validate_payload payload")
    case (Inl e)
    then show ?thesis by (simp add: controller_validation_error)
  next
    case (Inr v)
    obtain k rs ps as prs where v: "v = (k, rs, ps, as, prs)" by (cases v) auto
    from validate_Inr[OF Inr[unfolded v]] assms(2,3) have k: "k = keep" "rs = remove_ids" by auto
    have "fetch_involved s keep remove_ids = Inl (BadRequest (not_found_message s (keep # remove_ids)))"
      by (rule fetch_rejects[OF assms(1)]) (use assms(4) in blast)
    with Inr v k show ?thesis by (simp add: controller_fetch_error)
  qed
  from 1 2 show ?thesis by blast
qed

theorem missing_entity_rejected_witness:
  "applyEntitiesDuplicateMergeController ex_env (mk_payload 1 [2, 3, 4] [] [] []) ex_store =
     (Inl (BadRequest ''Invalid entity IDs: 3, 4 not found or already deleted''), ex_store)"
proof -
  have pk: "entity_pk ex_store" by code_simp
  have m: "\<exists>i \<in> set (1 # [2, 3, 4]). \<not> live ex_store i" by code_simp
  have v: "validate_payload (mk_payload 1 [2, 3, 4] [] [] []) = Inr (1, [2, 3, 4], [], [], [])"
    by code_simp
  have msg: "not_found_message ex_store (1 # [2, 3, 4]) = ''Invalid entity IDs: 3, 4 not found or already deleted''"
    by code_simp
  have k: "keep_entity_id (mk_payload 1 [2, 3, 4] [] [] []) = Some 1"
    and r: "remove_entity_ids (mk_payload 1 [2, 3, 4] [] [] []) = Some [2, 3, 4]"
    by (simp_all add: mk_payload_def)
  from missing_entity_rejected [OF pk k r m, of ex_env]
  show ?thesis by (simp only: v msg sum.case)
qed

text \<open>
  Claim C10: when the primary key of the entity table is unique and an identifier occurs
  twice in \<open>remove_entity_ids\<close>, fewer entities are fetched than identifiers were asked for,
  so a request that passes the checks of the body is refused by the count check, and the
  store is left as it was.
\<close>

theorem repeated_remove_id_rejected:
  assumes "entity_pk s"
    and "keep_entity_id payload = Some keep"
    and "remove_entity_ids payload = Some remove_ids"
    and "\<not> distinct remove_ids"
  shows "length (findMany_entities s (keep # remove_ids)) < length (keep # remove_ids)
     \<and> applyEntitiesDuplicateMergeController env payload s =
        (case validate_payload payload of
           Inl e \<Rightarrow> (Inl e, s)
         | Inr v \<Rightarrow> (Inl (BadRequest (not_found_message s (keep # remove_ids))), s))"
proof -
  have nd: "\<not> distinct (keep # remove_ids)" using assms(4) by simp
  have "length (findMany_entities s (keep # remove_ids)) \<noteq> length (keep # remove_ids)"
    using found_all_iff[OF assms(1), of "keep # remove_ids"] nd by blast
  with found_le[OF assms(1), of "keep # remove_ids"]
  have 1: "length (findMany_entities s (keep # remove_ids)) < length (keep # remove_ids)"
    by linarith
  have 2: "applyEntitiesDuplicateMergeController env payload s =
        (case validate_payload payload of
           Inl e \<Rightarrow> (Inl e, s)
         | Inr v \<Rightarrow> (Inl (BadRequest (not_found_message s (keep # remove_ids))), s))"
  proof (cases "validate_payload payload")
    case (Inl e)
    then show ?thesis by (simp add: controller_validation_error)
  next
    case (Inr v)
    obtain k rs ps as prs where v: "v = (k, rs, ps, as, prs)" by (cases v) auto
    from validate_Inr[OF Inr[unfolded v]] assms(2,3) have k: "k = keep" "rs = remove_ids" by auto
    have "fetch_involved s keep remove_ids = Inl (BadRequest (not_found_message s (keep # remove_ids)))"
      by (rule fetch_rejects[OF assms(1)]) (use nd in blast)
    with Inr v k show ?thesis by (simp add: controller_fetch_error)
  qed
  from 1 2 show ?thesis by blast
qed

theorem repeated_remove_id_rejected_witness:
  "live ex_store 1 \<and> live ex_store 2
   \<and> length (findMany_entities ex_store (1 # [2, 2])) < length (1 # [2, 2 :: int])
   \<and> applyEntitiesDuplicateMergeController ex_env (mk_payload 1 [2, 2] [] [] []) ex_store =
     (Inl (BadRequest ''Invalid entity IDs:  not found or already deleted''), ex_store)"
proof -
  have pk: "entity_pk ex_store" by code_simp
  have l: "live ex_store 1 \<and> live ex_store 2" by code_simp
  have v: "validate_payload (mk_payload 1 [2, 2] [] [] []) = Inr (1, [2, 2], [], [], [])"
    by code_simp
  have msg: "not_found_message ex_store (1 # [2, 2]) = ''Invalid entity IDs:  not found or already deleted''"
    by code_simp
  have k: "keep_entity_id (mk_payload 1 [2, 2] [] [] []) = Some 1"
    and r: "remove_entity_ids (mk_payload 1 [2, 2] [] [] []) = Some [2, 2]"
    by (simp_all add: mk_payload_def)
  have d: "\<not> distinct [2, 2 :: int]" by simp
  from repeated_remove_id_rejected [OF pk k r d, of ex_env] l
  show ?thesis by (simp only: v msg sum.case) 
qed

section \<open>Properties of the merge executor\<close>

lemma for_of_invariant:
  assumes "for_of body xs s = Inr s'" and "P s"
    and "\<And>x t t'. x \<in> set xs \<Longrightarrow> body x t = Inr t' \<Longrightarrow> P t \<Longrightarrow> P t'"
  shows "P s'"
  using assms
proof (induction xs arbitrary: s)
  case Nil
  then show ?case by simp
next
  case (Cons x xs)
  from Cons.prems(1) obtain t where t: "body x s = Inr t" and r: "for_of body xs t = Inr s'"
    by (auto simp: and_then_Inr)
  have "P t" using Cons.prems(3)[OF _ t Cons.prems(2)] by simp
  show ?case
  proof (rule Cons.IH[OF r \<open>P t\<close>])
    fix y u u' assume "y \<in> set xs" "body y u = Inr u'" "P u"
    then show "P u'" using Cons.prems(3)[of y u u'] by simp
  qed
qed

lemma steps_chain:
  "for_of (\<lambda>step. step) [a, b, c, d, e, f, g, h, i, j] s = Inr s' \<longleftrightarrow>
     (\<exists>s1 s2 s3 s4 s5 s6 s7 s8 s9.
        a s = Inr s1 \<and> b s1 = Inr s2 \<and> c s2 = Inr s3 \<and> d s3 = Inr s4 \<and> e s4 = Inr s5 \<and>
        f s5 = Inr s6 \<and> g s6 = Inr s7 \<and> h s7 = Inr s8 \<and> i s8 = Inr s9 \<and> j s9 = Inr s')"
  by (simp add: and_then_Inr)

lemma upsert_person_entities: "upsert_person env keep k p t = Inr t' \<Longrightarrow> entity_tbl t' = entity_tbl t"
  by (auto simp: upsert_person_def create_person_def and_then_Inr split: option.splits if_splits)

lemma upsert_address_entities: "upsert_address env keep k a t = Inr t' \<Longrightarrow> entity_tbl t' = entity_tbl t"
  by (auto simp: upsert_address_def create_address_def and_then_Inr split: option.splits if_splits)

lemma upsert_property_entities: "upsert_property env keep k p t = Inr t' \<Longrightarrow> entity_tbl t' = entity_tbl t"
  by (auto simp: upsert_property_def create_property_def and_then_Inr split: option.splits if_splits)

lemma people_loop_entities:
  "for_of (upsert_person env keep k) ps t = Inr t' \<Longrightarrow> entity_tbl t' = entity_tbl t"
  by (rule for_of_invariant[where P = "\<lambda>u. entity_tbl u = entity_tbl t"])
     (auto dest: upsert_person_entities)

lemma address_loop_entities:
  "for_of (upsert_address env keep k) as t = Inr t' \<Longrightarrow> entity_tbl t' = entity_tbl t"
  by (rule for_of_invariant[where P = "\<lambda>u. entity_tbl u = entity_tbl t"])
     (auto dest: upsert_address_entities)

lemma property_loop_entities:
  "for_of (upsert_property env keep k) prs t = Inr t' \<Longrightarrow> entity_tbl t' = entity_tbl t"
  by (rule for_of_invariant[where P = "\<lambda>u. entity_tbl u = entity_tbl t"])
     (auto dest: upsert_property_entities)

lemma other_steps_entities:
  "tx_delete_people env rm t = Inr t' \<Longrightarrow> entity_tbl t' = entity_tbl t"
  "tx_delete_addresses env rm t = Inr t' \<Longrightarrow> entity_tbl t' = entity_tbl t"
  "tx_clear_properties keep t = Inr t' \<Longrightarrow> entity_tbl t' = entity_tbl t"
  "tx_delete_properties rm t = Inr t' \<Longrightarrow> entity_tbl t' = entity_tbl t"
  "tx_write_audit env keep rs ps as k t = Inr t' \<Longrightarrow> entity_tbl t' = entity_tbl t"
  by (auto simp: tx_delete_people_def tx_delete_addresses_def tx_clear_properties_def
        tx_delete_properties_def tx_write_audit_def Let_def split: if_splits)

lemma merge_transaction_entities:
  assumes "merge_transaction env keep remove_ids new_name new_trade_name ps as prs k rm s = Inr s'"
  shows "entity_tbl s' = map (merged_row env keep remove_ids new_name new_trade_name k) (entity_tbl s)"
proof -
  from assms obtain s1 s2 s3 s4 s5 s6 s7 s8 s9 where
    1: "tx_update_kept env keep new_name new_trade_name k s = Inr s1" and
    2: "for_of (upsert_person env keep k) ps s1 = Inr s2" and
    3: "tx_delete_people env rm s2 = Inr s3" and
    4: "for_of (upsert_address env keep k) as s3 = Inr s4" and
    5: "tx_delete_addresses env rm s4 = Inr s5" and
    6: "tx_clear_properties keep s5 = Inr s6" and
    7: "for_of (upsert_property env keep k) prs s6 = Inr s7" and
    8: "tx_delete_properties rm s7 = Inr s8" and
    9: "tx_soft_delete_entities env remove_ids s8 = Inr s9" and
    10: "tx_write_audit env keep remove_ids ps as k s9 = Inr s'"
    unfolding merge_transaction_def steps_chain by blast
  have e8: "entity_tbl s8 = entity_tbl s1"
    using people_loop_entities[OF 2] other_steps_entities(1)[OF 3] address_loop_entities[OF 4]
      other_steps_entities(2)[OF 5] other_steps_entities(3)[OF 6] property_loop_entities[OF 7]
      other_steps_entities(4)[OF 8] by simp
  have e1: "entity_tbl s1 = map (\<lambda>e. if entity_id e = keep
                then e\<lparr>name := (case new_name of None \<Rightarrow> name k | Some n \<Rightarrow> Some n),
                       trade_name := (case new_trade_name of None \<Rightarrow> trade_name e | Some t \<Rightarrow> t),
                       updated_at := Some (now env)\<rparr>
                else e) (entity_tbl s)"
    using 1 by (auto simp: tx_update_kept_def prisma_update_def and_then_Inr split: if_splits)
  have e9: "entity_tbl s' = prisma_updateMany (\<lambda>e. entity_id e \<in> set remove_ids)
              (\<lambda>e. e\<lparr>is_deleted := True, deleted_at := Some (now env)\<rparr>) (entity_tbl s8)"
    using 9 other_steps_entities(5)[OF 10] by (auto simp: tx_soft_delete_entities_def)
  show ?thesis
    unfolding e9 e8 e1 prisma_updateMany_def merged_row_def Let_def by (simp add: comp_def)
qed

lemma merged_row_facts:
  "entity_id (merged_row env keep rs n t k e) = entity_id e"
  "is_deleted (merged_row env keep rs n t k e) = (entity_id e \<in> set rs \<or> is_deleted e)"
  "entity_id e \<in> set rs \<Longrightarrow> deleted_at (merged_row env keep rs n t k e) = Some (now env)"
  by (auto simp: merged_row_def Let_def)

lemma controller_transaction:
  "validate_payload payload = Inr (keep, remove_ids, ps, as, prs) \<Longrightarrow>
   fetch_involved s keep remove_ids = Inr (k, rm) \<Longrightarrow>
   applyEntitiesDuplicateMergeController env payload s =
     (case merge_transaction env keep remove_ids (me_name (merged_entity payload))
             (me_trade_name (merged_entity payload)) ps as prs k rm s of
        Inl error \<Rightarrow> (Inl (BadRequest (''Failed to apply merge: '' @ error_message error)), s)
      | Inr s' \<Rightarrow> (Inr \<lparr>merged_entity_id = keep, deleted_entity_ids = remove_ids,
                          applied = True\<rparr>, s'))"
  by (simp add: applyEntitiesDuplicateMergeController_def)

lemma controller_success:
  assumes "applyEntitiesDuplicateMergeController env payload s = (Inr r, s')"
  obtains keep remove_ids ps as prs k rm where
    "validate_payload payload = Inr (keep, remove_ids, ps, as, prs)"
    "fetch_involved s keep remove_ids = Inr (k, rm)"
    "merge_transaction env keep remove_ids (me_name (merged_entity payload))
       (me_trade_name (merged_entity payload)) ps as prs k rm s = Inr s'"
    "r = \<lparr>merged_entity_id = keep, deleted_entity_ids = remove_ids, applied = True\<rparr>"
proof (cases "validate_payload payload")
  case (Inl e)
  with assms show ?thesis by (simp add: controller_validation_error)
next
  case (Inr v)
  obtain keep remove_ids ps as prs where v: "v = (keep, remove_ids, ps, as, prs)"
    by (cases v) auto
  note val = Inr[unfolded v]
  show ?thesis
  proof (cases "fetch_involved s keep remove_ids")
    case (Inl e)
    with assms val show ?thesis by (simp add: controller_fetch_error)
  next
    case (Inr w)
    obtain k rm where w: "w = (k, rm)" by (cases w) auto
    note fet = Inr[unfolded w]
    show ?thesis
    proof (cases "merge_transaction env keep remove_ids (me_name (merged_entity payload))
       (me_trade_name (merged_entity payload)) ps as prs k rm s")
      case (Inl e)
      with assms show ?thesis by (simp add: controller_transaction[OF val fet])
    next
      case (Inr s'')
      with assms have "s'' = s'"
        "r = \<lparr>merged_entity_id = keep, deleted_entity_ids = remove_ids, applied = True\<rparr>"
        by (simp_all add: controller_transaction[OF val fet])
      with Inr val fet that show ?thesis by blast
    qed
  qed
qed

text \<open>
  Claim C1: when the primary key of the entity table is unique and the request succeeds
  (it passed validation and its transaction committed), the entity table afterwards
  holds the kept entity, not deleted, and every removed entity, each marked deleted with
  the time of the merge as its deletion timestamp.
\<close>

theorem merge_postcondition:
  assumes "entity_pk s"
    and "applyEntitiesDuplicateMergeController env payload s = (Inr r, s')"
    and "keep_entity_id payload = Some keep"
    and "remove_entity_ids payload = Some remove_ids"
  shows "(\<exists>e \<in> set (entity_tbl s'). entity_id e = keep)
     \<and> (\<forall>e \<in> set (entity_tbl s'). entity_id e = keep \<longrightarrow> \<not> is_deleted e)
     \<and> (\<forall>i \<in> set remove_ids. \<exists>e \<in> set (entity_tbl s'). entity_id e = i)
     \<and> (\<forall>e \<in> set (entity_tbl s'). entity_id e \<in> set remove_ids \<longrightarrow>
           is_deleted e \<and> deleted_at e = Some (now env))"
proof -
  from controller_success[OF assms(2)] obtain keep' remove_ids' ps as prs k rm where
    v: "validate_payload payload = Inr (keep', remove_ids', ps, as, prs)" and
    f: "fetch_involved s keep' remove_ids' = Inr (k, rm)" and
    t: "merge_transaction env keep' remove_ids' (me_name (merged_entity payload))
       (me_trade_name (merged_entity payload)) ps as prs k rm s = Inr s'" and
    r: "r = \<lparr>merged_entity_id = keep', deleted_entity_ids = remove_ids', applied = True\<rparr>"
    by (rule controller_success[OF assms(2)])
  from validate_Inr[OF v] assms(3,4) have eq: "keep' = keep" "remove_ids' = remove_ids"
    and notin: "keep \<notin> set remove_ids" by auto
  from fetch_accepts[OF assms(1) f[unfolded eq]]
  have lv: "\<forall>i \<in> set (keep # remove_ids). live s i" by simp
  let ?g = "merged_row env keep remove_ids (me_name (merged_entity payload))
       (me_trade_name (merged_entity payload)) k"
  have tbl: "entity_tbl s' = map ?g (entity_tbl s)"
    using merge_transaction_entities[OF t[unfolded eq]] .
  have ex: "\<exists>e \<in> set (entity_tbl s'). entity_id e = i" if "i \<in> set (keep # remove_ids)" for i
  proof -
    from lv that obtain e where "e \<in> set (entity_tbl s)" "entity_id e = i"
      by (auto simp: live_iff)
    then have "?g e \<in> set (entity_tbl s')" "entity_id (?g e) = i"
      by (simp_all add: tbl merged_row_facts)
    then show ?thesis by blast
  qed
  have keep_ok: "\<not> is_deleted e'" if e': "e' \<in> set (entity_tbl s')" "entity_id e' = keep" for e'
  proof -
    from e' obtain e where e: "e \<in> set (entity_tbl s)" "e' = ?g e" by (auto simp: tbl)
    with e' have ide: "entity_id e = keep" by (simp add: merged_row_facts)
    from lv obtain e0 where e0: "e0 \<in> set (entity_tbl s)" "entity_id e0 = keep" "\<not> is_deleted e0"
      by (auto simp: live_iff)
    have "inj_on entity_id (set (entity_tbl s))"
      using assms(1) by (simp add: entity_pk_def distinct_map)
    with e(1) e0(1,2) ide have "e = e0" by (auto dest: inj_onD)
    with e0 e notin ide show ?thesis by (simp add: merged_row_facts)
  qed
  have rem_ok: "is_deleted e' \<and> deleted_at e' = Some (now env)"
    if e': "e' \<in> set (entity_tbl s')" "entity_id e' \<in> set remove_ids" for e'
  proof -
    from e' obtain e where e: "e \<in> set (entity_tbl s)" "e' = ?g e" by (auto simp: tbl)
    with e' have "entity_id e \<in> set remove_ids" by (simp add: merged_row_facts)
    with e show ?thesis by (simp add: merged_row_facts)
  qed
  from ex keep_ok rem_ok show ?thesis by simp
qed

theorem merge_postcondition_witness:
  "fst (applyEntitiesDuplicateMergeController ex_env ex_payload ex_store) =
      Inr \<lparr>merged_entity_id = 1, deleted_entity_ids = [2], applied = True\<rparr>
   \<and> (mk_entity 1 ''Acme'' 2)\<lparr>updated_at := Some 1000\<rparr>
        \<in> set (entity_tbl (snd (applyEntitiesDuplicateMergeController ex_env ex_payload ex_store)))
   \<and> \<not> is_deleted ((mk_entity 1 ''Acme'' 2)\<lparr>updated_at := Some 1000\<rparr>)
   \<and> (mk_entity 2 ''Acme'' 2)\<lparr>is_deleted := True, deleted_at := Some 1000\<rparr>
        \<in> set (entity_tbl (snd (applyEntitiesDuplicateMergeController ex_env ex_payload ex_store)))
   \<and> is_deleted ((mk_entity 2 ''Acme'' 2)\<lparr>is_deleted := True, deleted_at := Some 1000\<rparr>)
   \<and> deleted_at ((mk_entity 2 ''Acme'' 2)\<lparr>is_deleted := True, deleted_at := Some 1000\<rparr>)
        = Some (now ex_env)"
proof -
  have pk: "entity_pk ex_store" by code_simp
  have res: "fst (applyEntitiesDuplicateMergeController ex_env ex_payload ex_store) =
      Inr \<lparr>merged_entity_id = 1, deleted_entity_ids = [2], applied = True\<rparr>"
    by code_simp
  then have run: "applyEntitiesDuplicateMergeController ex_env ex_payload ex_store =
      (Inr \<lparr>merged_entity_id = 1, deleted_entity_ids = [2], applied = True\<rparr>,
       snd (applyEntitiesDuplicateMergeController ex_env ex_payload ex_store))"
    by (metis prod.collapse)
  have k: "keep_entity_id ex_payload = Some 1" and r: "remove_entity_ids ex_payload = Some [2]"
    by (simp_all add: ex_payload_def mk_payload_def)
  have m1: "(mk_entity 1 ''Acme'' 2)\<lparr>updated_at := Some 1000\<rparr>
        \<in> set (entity_tbl (snd (applyEntitiesDuplicateMergeController ex_env ex_payload ex_store)))"
    by code_simp
  have m2: "(mk_entity 2 ''Acme'' 2)\<lparr>is_deleted := True, deleted_at := Some 1000\<rparr>
        \<in> set (entity_tbl (snd (applyEntitiesDuplicateMergeController ex_env ex_payload ex_store)))"
    by code_simp
  have i1: "entity_id ((mk_entity 1 ''Acme'' 2)\<lparr>updated_at := Some 1000\<rparr>) = 1"
    and i2: "entity_id ((mk_entity 2 ''Acme'' 2)\<lparr>is_deleted := True, deleted_at := Some 1000\<rparr>) \<in> set [2]"
    by (simp_all add: mk_entity_def)
  from merge_postcondition [OF pk run k r] res m1 m2 i1 i2 show ?thesis by blast
qed

section \<open>The two controllers\<close>

text \<open>Each definition of the second controller unfolds to the text of the first.\<close>

lemma manual_steps:
  "validate_payload_manual = validate_payload"
  "fetch_involved_manual = fetch_involved"
  "tx_update_kept_manual = tx_update_kept"
  "create_person_manual = create_person"
  "upsert_person_manual = upsert_person"
  "tx_delete_people_manual = tx_delete_people"
  "create_address_manual = create_address"
  "upsert_address_manual = upsert_address"
  "tx_delete_addresses_manual = tx_delete_addresses"
  "tx_clear_properties_manual = tx_clear_properties"
  "create_property_manual = create_property"
  "upsert_property_manual = upsert_property"
  "tx_delete_properties_manual = tx_delete_properties"
  "tx_soft_delete_entities_manual = tx_soft_delete_entities"
  "tx_write_audit_manual = tx_write_audit"
  "merge_transaction_manual = merge_transaction"
  unfolding fun_eq_iff
  unfolding validate_payload_manual_def fetch_involved_manual_def tx_update_kept_manual_def create_person_manual_def upsert_person_manual_def tx_delete_people_manual_def create_address_manual_def upsert_address_manual_def tx_delete_addresses_manual_def tx_clear_properties_manual_def create_property_manual_def upsert_property_manual_def tx_delete_properties_manual_def tx_soft_delete_entities_manual_def tx_write_audit_manual_def merge_transaction_manual_def
    validate_payload_def fetch_involved_def tx_update_kept_def create_person_def upsert_person_def tx_delete_people_def create_address_def upsert_address_def tx_delete_addresses_def tx_clear_properties_def create_property_def upsert_property_def tx_delete_properties_def tx_soft_delete_entities_def tx_write_audit_def merge_transaction_def
  by (rule allI refl)+

text \<open>
  Claim C9: the router sends the two paths to the two controllers, and for every clock,
  body and store the second controller returns what the first returns: the same response
  or the same error, and the same store.
\<close>

theorem controllers_identical:
  "post_route ''/entities/resolve-duplicates'' = Some applyEntitiesDuplicateMergeController
   \<and> post_route ''/entities/resolve-duplicates/manual'' = Some applyEntitiesDuplicateMergeManuallyController
   \<and> applyEntitiesDuplicateMergeManuallyController env payload s =
       applyEntitiesDuplicateMergeController env payload s"
proof -
  have "applyEntitiesDuplicateMergeManuallyController env payload s =
       applyEntitiesDuplicateMergeController env payload s"
    unfolding applyEntitiesDuplicateMergeManuallyController_def
      applyEntitiesDuplicateMergeController_def manual_steps by (rule refl)
  then show ?thesis by (simp add: post_route_def)
qed

section \<open>The full replace of the properties\<close>

lemma for_of_each:
  assumes "for_of body xs s = Inr s'" and "P s"
    and "\<And>y t t'. y \<in> set xs \<Longrightarrow> body y t = Inr t' \<Longrightarrow> P t \<Longrightarrow> P t'"
    and "x \<in> set xs"
  shows "\<exists>t t'. P t \<and> body x t = Inr t'"
  using assms
proof (induction xs arbitrary: s)
  case Nil
  then show ?case by simp
next
  case (Cons y ys)
  from Cons.prems(1) obtain t where t: "body y s = Inr t" and r: "for_of body ys t = Inr s'"
    by (auto simp: and_then_Inr)
  show ?case
  proof (cases "x = y")
    case True
    with t Cons.prems(2) show ?thesis by blast
  next
    case False
    with Cons.prems(4) have x: "x \<in> set ys" by simp
    have Pt: "P t" using Cons.prems(3)[OF _ t Cons.prems(2)] by simp
    show ?thesis
    proof (rule Cons.IH[OF r Pt _ x])
      fix z u u' assume "z \<in> set ys" "body z u = Inr u'" "P u"
      then show "P u'" using Cons.prems(3)[of z u u'] by simp
    qed
  qed
qed

lemma upsert_person_properties:
  "upsert_person env keep k p t = Inr t' \<Longrightarrow>
     entity_property_tbl t' = entity_property_tbl t \<and> entity_property_seq t' = entity_property_seq t"
  by (auto simp: upsert_person_def create_person_def and_then_Inr split: option.splits if_splits)

lemma upsert_address_properties:
  "upsert_address env keep k a t = Inr t' \<Longrightarrow>
     entity_property_tbl t' = entity_property_tbl t \<and> entity_property_seq t' = entity_property_seq t"
  by (auto simp: upsert_address_def create_address_def and_then_Inr split: option.splits if_splits)

lemma people_loop_properties:
  "for_of (upsert_person env keep k) ps t = Inr t' \<Longrightarrow>
     entity_property_tbl t' = entity_property_tbl t \<and> entity_property_seq t' = entity_property_seq t"
  by (rule for_of_invariant[where P = "\<lambda>u. entity_property_tbl u = entity_property_tbl t
        \<and> entity_property_seq u = entity_property_seq t"])
     (auto dest: upsert_person_properties)

lemma address_loop_properties:
  "for_of (upsert_address env keep k) as t = Inr t' \<Longrightarrow>
     entity_property_tbl t' = entity_property_tbl t \<and> entity_property_seq t' = entity_property_seq t"
  by (rule for_of_invariant[where P = "\<lambda>u. entity_property_tbl u = entity_property_tbl t
        \<and> entity_property_seq u = entity_property_seq t"])
     (auto dest: upsert_address_properties)

lemma first_steps_properties:
  "tx_update_kept env keep n tn k t = Inr t' \<Longrightarrow>
     entity_property_tbl t' = entity_property_tbl t \<and> entity_property_seq t' = entity_property_seq t"
  "tx_delete_people env rm t = Inr t' \<Longrightarrow>
     entity_property_tbl t' = entity_property_tbl t \<and> entity_property_seq t' = entity_property_seq t"
  "tx_delete_addresses env rm t = Inr t' \<Longrightarrow>
     entity_property_tbl t' = entity_property_tbl t \<and> entity_property_seq t' = entity_property_seq t"
  by (auto simp: tx_update_kept_def tx_delete_people_def tx_delete_addresses_def and_then_Inr
        Let_def split: if_splits)

lemma upsert_property_ids_gone:
  assumes "upsert_property env keep k prop t = Inr t'" "ids_gone K t"
  shows "ids_gone K t'"
proof -
  have upd: "ids_gone K (t\<lparr>entity_property_tbl := rows\<rparr>)"
    if "prisma_update ''entity_property'' entity_property_id i f (entity_property_tbl t) = Inr rows"
      and "\<And>r. entity_property_id (f r) = entity_property_id r" for i f rows
    using that assms(2)
    by (auto simp: prisma_update_def ids_gone_def split: if_splits)
  have fresh: "entity_property_seq t \<notin> K" using assms(2) by (fastforce simp: ids_gone_def)
  have cre: "ids_gone K u" if "create_property env keep prop t = Inr u" for u
    using that assms(2) fresh by (fastforce simp: create_property_def ids_gone_def)
  show ?thesis
  proof (cases "pr_entity_property_id prop")
    case None
    with assms(1) show ?thesis by (simp add: upsert_property_def cre)
  next
    case (Some epid)
    show ?thesis
    proof (cases "epid \<noteq> 0 \<and> find (\<lambda>p. entity_property_id p = epid) (entity_property k) \<noteq> None")
      case False
      with Some assms(1) have "create_property env keep prop t = Inr t'"
        by (auto simp: upsert_property_def split: option.splits if_splits)
      then show ?thesis by (rule cre)
    next
      case True
      with Some assms(1) obtain rows where
        "prisma_update ''entity_property'' entity_property_id epid
           (\<lambda>r. r\<lparr>property_id := pr_property_id prop,
                  property_value := pr_property_value prop,
                  is_primary := pr_is_primary prop,
                  ep_entity_id := keep,
                  ep_updated_at := Some (now env),
                  ep_created_at := sanitizeDate (pr_created_at prop)\<rparr>)
           (entity_property_tbl t) = Inr rows"
        and t': "t' = t\<lparr>entity_property_tbl := rows\<rparr>"
        by (auto simp: upsert_property_def and_then_Inr)
      from upd[OF this(1)] t' show ?thesis by simp
    qed
  qed
qed

lemma upsert_property_fails:
  assumes "ids_gone K t" "pr_entity_property_id prop = Some epid" "epid \<noteq> 0" "epid \<in> K"
    and "find (\<lambda>p. entity_property_id p = epid) (entity_property k) \<noteq> None"
  shows "upsert_property env keep k prop t = Inl (RecordNotFound ''entity_property'')"
proof -
  have "\<not> list_ex (\<lambda>r. entity_property_id r = epid) (entity_property_tbl t)"
    using assms(1,4) by (auto simp: ids_gone_def list_ex_iff)
  then show ?thesis
    using assms(2,3,5)
    by (auto simp: upsert_property_def prisma_update_def and_then_def split: option.splits)
qed

lemma entity_property_include:
  "entity_property (include_relations s e) =
     filter (\<lambda>p. ep_entity_id p = entity_id e) (entity_property_tbl s)"
  by (simp add: include_relations_def entity_row.defs entity_included.defs)

lemma fetch_kept_properties:
  assumes "fetch_involved s keep remove_ids = Inr (k, rm)"
  shows "entity_property k = filter (\<lambda>p. ep_entity_id p = keep) (entity_property_tbl s)"
proof -
  from assms have "find (\<lambda>e. entity_id e = keep) (findMany_entities s (keep # remove_ids)) = Some k"
    by (auto simp: fetch_involved_def Let_def split: if_splits option.splits)
  then have "k \<in> set (findMany_entities s (keep # remove_ids))" "entity_id k = keep"
    by (auto simp: find_Some_iff)
  then have mem: "k \<in> include_relations s ` set (filter (\<lambda>e. entity_id e \<in> set (keep # remove_ids)
       \<and> is_deleted e = False) (entity_tbl s))" and idk: "entity_id k = keep"
    by (simp_all only: findMany_entities_def set_map)
  from mem obtain e where e: "k = include_relations s e" by (rule imageE)
  with idk have "entity_id e = keep" by (simp only: entity_id_include)
  with e show ?thesis by (simp only: entity_property_include)
qed

text \<open>
  The property loop after the \<open>deleteMany\<close>. When the primary key of the property table
  is unique and its identifiers lie below the next one handed out, a valid request over
  existing entities that supplies a property under the identifier of a property of the
  kept entity never commits: the row to update has just been deleted, \<open>update\<close> throws
  and the transaction is rolled back.
\<close>

lemma fetch_succeeds:
  assumes "entity_pk s" "distinct (keep # remove_ids)" "\<forall>i \<in> set (keep # remove_ids). live s i"
  shows "\<exists>k rm. fetch_involved s keep remove_ids = Inr (k, rm)"
proof -
  have len: "length (findMany_entities s (keep # remove_ids)) = length (keep # remove_ids)"
    using found_all_iff[OF assms(1), of "keep # remove_ids"] assms(2,3) by blast
  have "keep \<in> set (map entity_id (findMany_entities s (keep # remove_ids)))"
    unfolding found_set using assms(3) by simp
  then have "find (\<lambda>e. entity_id e = keep) (findMany_entities s (keep # remove_ids)) \<noteq> None"
    by (auto simp: find_None_iff)
  then obtain k where "find (\<lambda>e. entity_id e = keep) (findMany_entities s (keep # remove_ids)) = Some k"
    by blast
  with len show ?thesis by (simp add: fetch_involved_def Let_def del: list.map set_map)
qed

lemma existing_property_id_aborts:
  assumes "entity_pk s" and "property_pk s"
    and "validate_payload payload = Inr (keep, remove_ids, ps, as, prs)"
    and "distinct remove_ids" and "\<forall>i \<in> set (keep # remove_ids). live s i"
    and "prop \<in> set prs" and "pr_entity_property_id prop = Some epid" and "epid \<noteq> 0"
    and "\<exists>p \<in> set (entity_property_tbl s). entity_property_id p = epid \<and> ep_entity_id p = keep"
  shows "\<exists>e. applyEntitiesDuplicateMergeController env payload s =
           (Inl (BadRequest (''Failed to apply merge: '' @ error_message e)), s)"
proof -
  from validate_Inr[OF assms(3)] have "keep \<notin> set remove_ids" by simp
  with assms(4) have "distinct (keep # remove_ids)" by simp
  from fetch_succeeds[OF assms(1) this assms(5)]
  obtain k rm where f: "fetch_involved s keep remove_ids = Inr (k, rm)" by blast
  define K where "K = entity_property_id ` {p \<in> set (entity_property_tbl s). ep_entity_id p = keep}"
  have kp: "entity_property k = filter (\<lambda>p. ep_entity_id p = keep) (entity_property_tbl s)"
    by (rule fetch_kept_properties[OF f])
  have inK: "epid \<in> K" using assms(9) by (auto simp: K_def)
  have found: "find (\<lambda>p. entity_property_id p = epid) (entity_property k) \<noteq> None"
    using assms(9) by (auto simp: kp find_None_iff)
  have no: "merge_transaction env keep remove_ids (me_name (merged_entity payload))
       (me_trade_name (merged_entity payload)) ps as prs k rm s \<noteq> Inr s'" for s'
  proof
    assume "merge_transaction env keep remove_ids (me_name (merged_entity payload))
       (me_trade_name (merged_entity payload)) ps as prs k rm s = Inr s'"
    then obtain s1 s2 s3 s4 s5 s6 s7 where
      1: "tx_update_kept env keep (me_name (merged_entity payload))
            (me_trade_name (merged_entity payload)) k s = Inr s1" and
      2: "for_of (upsert_person env keep k) ps s1 = Inr s2" and
      3: "tx_delete_people env rm s2 = Inr s3" and
      4: "for_of (upsert_address env keep k) as s3 = Inr s4" and
      5: "tx_delete_addresses env rm s4 = Inr s5" and
      6: "tx_clear_properties keep s5 = Inr s6" and
      7: "for_of (upsert_property env keep k) prs s6 = Inr s7"
      unfolding merge_transaction_def steps_chain by blast
    have s5: "entity_property_tbl s5 = entity_property_tbl s"
      "entity_property_seq s5 = entity_property_seq s"
      using first_steps_properties(1)[OF 1] people_loop_properties[OF 2]
        first_steps_properties(2)[OF 3] address_loop_properties[OF 4]
        first_steps_properties(3)[OF 5] by simp_all
    have s6: "entity_property_tbl s6 = filter (\<lambda>p. ep_entity_id p \<noteq> keep) (entity_property_tbl s)"
      "entity_property_seq s6 = entity_property_seq s"
      using 6 s5 by (auto simp: tx_clear_properties_def prisma_deleteMany_def)
    have inj: "inj_on entity_property_id (set (entity_property_tbl s))"
      using assms(2) by (simp add: property_pk_def distinct_map)
    have lt: "\<forall>p \<in> set (entity_property_tbl s). entity_property_id p < entity_property_seq s"
      using assms(2) by (simp add: property_pk_def list_all_iff)
    have gone: "ids_gone K s6"
      unfolding ids_gone_def s6 K_def using inj lt by (auto dest: inj_onD)
    have "\<exists>t t'. ids_gone K t \<and> upsert_property env keep k prop t = Inr t'"
    proof (rule for_of_each[where P = "ids_gone K", OF 7 gone _ assms(6)])
      fix y u u' assume "upsert_property env keep k y u = Inr u'" "ids_gone K u"
      then show "ids_gone K u'" by (rule upsert_property_ids_gone)
    qed
    then obtain t t' where "ids_gone K t" "upsert_property env keep k prop t = Inr t'" by blast
    with upsert_property_fails[OF this(1) assms(7,8) inK found, of env keep]
    show False by simp
  qed
  then obtain e where "merge_transaction env keep remove_ids (me_name (merged_entity payload))
       (me_trade_name (merged_entity payload)) ps as prs k rm s = Inl e"
    by (cases "merge_transaction env keep remove_ids (me_name (merged_entity payload))
       (me_trade_name (merged_entity payload)) ps as prs k rm s") auto
  then show ?thesis by (auto simp: controller_transaction[OF assms(3) f])
qed

lemma existing_property_id_aborts_instance:
  "\<exists>e. applyEntitiesDuplicateMergeController ex_env ex_payload_existing_property ex_store =
         (Inl (BadRequest (''Failed to apply merge: '' @ error_message e)), ex_store)"
proof -
  have pk: "entity_pk ex_store" and ppk: "property_pk ex_store" by code_simp+
  have v: "validate_payload ex_payload_existing_property =
      Inr (1, [2], [], [], [mk_property_payload (Some 5) 7 ''b@x.com'' ''Yes''])"
    by code_simp
  have l: "\<forall>i \<in> set (1 # [2]). live ex_store i" by code_simp
  have p: "\<exists>p \<in> set (entity_property_tbl ex_store). entity_property_id p = 5 \<and> ep_entity_id p = 1"
    by code_simp
  have i: "pr_entity_property_id (mk_property_payload (Some 5) 7 ''b@x.com'' ''Yes'') = Some 5"
    by (simp add: mk_property_payload_def)
  show ?thesis
    by (rule existing_property_id_aborts[OF pk ppk v _ l _ i _ p]) simp_all
qed

lemma upsert_property_creates:
  assumes "upsert_property env keep k prop t = Inr t'" "ids_gone K t"
    and "entity_property_id ` set (entity_property k) \<subseteq> K"
  shows "create_property env keep prop t = Inr t'"
proof (cases "pr_entity_property_id prop")
  case None
  with assms(1) show ?thesis by (simp add: upsert_property_def)
next
  case (Some epid)
  show ?thesis
  proof (cases "epid \<noteq> 0 \<and> find (\<lambda>p. entity_property_id p = epid) (entity_property k) \<noteq> None")
    case False
    with Some assms(1) show ?thesis
      by (auto simp: upsert_property_def split: option.splits if_splits)
  next
    case True
    then have "epid \<in> K" using assms(3) by (auto simp: find_None_iff)
    from upsert_property_fails[OF assms(2) Some _ this, of k env keep] True assms(1)
    show ?thesis by simp
  qed
qed

lemma property_loop_creates:
  assumes "for_of (upsert_property env keep k) prs t = Inr t'" "ids_gone K t"
    and "entity_property_id ` set (entity_property k) \<subseteq> K"
  shows "\<exists>new. entity_property_tbl t' = entity_property_tbl t @ new
           \<and> map row_content new = map supplied_content prs
           \<and> (\<forall>p \<in> set new. ep_entity_id p = keep \<and> entity_property_seq t \<le> entity_property_id p)"
  using assms(1,2)
proof (induction prs arbitrary: t)
  case Nil
  then show ?case by simp
next
  case (Cons q qs)
  from Cons.prems(1) obtain u where u: "upsert_property env keep k q t = Inr u"
    and r: "for_of (upsert_property env keep k) qs u = Inr t'"
    by (auto simp: and_then_Inr)
  have gu: "ids_gone K u" by (rule upsert_property_ids_gone[OF u Cons.prems(2)])
  from upsert_property_creates[OF u Cons.prems(2) assms(3)]
  have cu: "create_property env keep q t = Inr u" .
  define row where "row = \<lparr>entity_property_id = entity_property_seq t, ep_entity_id = keep,
                property_id = pr_property_id q, property_value = pr_property_value q,
                is_primary = pr_is_primary q,
                ep_created_at = Some (now env), ep_updated_at = Some (now env)\<rparr>"
  from cu have tu: "entity_property_tbl u = entity_property_tbl t @ [row]"
    and su: "entity_property_seq u = entity_property_seq t + 1"
    by (auto simp: create_property_def row_def)
  from Cons.IH[OF r gu] obtain new where
    n1: "entity_property_tbl t' = entity_property_tbl u @ new" and
    n2: "map row_content new = map supplied_content qs" and
    n3: "\<forall>p \<in> set new. ep_entity_id p = keep \<and> entity_property_seq u \<le> entity_property_id p"
    by blast
  have "entity_property_tbl t' = entity_property_tbl t @ (row # new)" using n1 tu by simp
  moreover have "map row_content (row # new) = map supplied_content (q # qs)"
    using n2 by (simp add: row_content_def supplied_content_def row_def)
  moreover have "\<forall>p \<in> set (row # new). ep_entity_id p = keep
       \<and> entity_property_seq t \<le> entity_property_id p"
    using n3 su by (auto simp: row_def)
  ultimately show ?case by blast
qed

lemma last_steps_properties:
  "tx_soft_delete_entities env rs t = Inr t' \<Longrightarrow> entity_property_tbl t' = entity_property_tbl t"
  "tx_write_audit env keep rs ps as k t = Inr t' \<Longrightarrow> entity_property_tbl t' = entity_property_tbl t"
  by (auto simp: tx_soft_delete_entities_def tx_write_audit_def Let_def split: if_splits)

lemma fetch_removed_properties:
  assumes "fetch_involved s keep remove_ids = Inr (k, rm)" "e \<in> set rm"
  shows "set (entity_property e) \<subseteq> set (entity_property_tbl s)"
proof -
  from assms have "e \<in> set (findMany_entities s (keep # remove_ids))"
    by (auto simp: fetch_involved_def Let_def split: if_splits option.splits)
  then have "e \<in> include_relations s ` set (filter (\<lambda>e. entity_id e \<in> set (keep # remove_ids)
       \<and> is_deleted e = False) (entity_tbl s))"
    by (simp only: findMany_entities_def set_map)
  then obtain e0 where "e = include_relations s e0" by (rule imageE)
  then show ?thesis by (simp only: entity_property_include set_filter) blast
qed

text \<open>
  When the transaction commits, the replace is full: under the same assumption on the
  property table, after a successful request the kept entity owns exactly the supplied
  properties, in their order, as new rows.
\<close>

lemma committed_full_replace:
  assumes "property_pk s"
    and "applyEntitiesDuplicateMergeController env payload s = (Inr r, s')"
    and "keep_entity_id payload = Some keep"
    and "me_properties (merged_entity payload) = Some prs"
  shows "map row_content (filter (\<lambda>p. ep_entity_id p = keep) (entity_property_tbl s'))
           = map supplied_content prs"
proof -
  obtain keep' remove_ids ps as prs' k rm where
    v: "validate_payload payload = Inr (keep', remove_ids, ps, as, prs')" and
    f: "fetch_involved s keep' remove_ids = Inr (k, rm)" and
    t: "merge_transaction env keep' remove_ids (me_name (merged_entity payload))
       (me_trade_name (merged_entity payload)) ps as prs' k rm s = Inr s'" and
    "r = \<lparr>merged_entity_id = keep', deleted_entity_ids = remove_ids, applied = True\<rparr>"
    by (rule controller_success[OF assms(2)])
  from validate_Inr[OF v] assms(3,4) have eq: "keep' = keep" "prs' = prs" by auto
  note f = f[unfolded eq] and t = t[unfolded eq]
  from t obtain s1 s2 s3 s4 s5 s6 s7 s8 s9 where
    1: "tx_update_kept env keep (me_name (merged_entity payload))
          (me_trade_name (merged_entity payload)) k s = Inr s1" and
    2: "for_of (upsert_person env keep k) ps s1 = Inr s2" and
    3: "tx_delete_people env rm s2 = Inr s3" and
    4: "for_of (upsert_address env keep k) as s3 = Inr s4" and
    5: "tx_delete_addresses env rm s4 = Inr s5" and
    6: "tx_clear_properties keep s5 = Inr s6" and
    7: "for_of (upsert_property env keep k) prs s6 = Inr s7" and
    8: "tx_delete_properties rm s7 = Inr s8" and
    9: "tx_soft_delete_entities env remove_ids s8 = Inr s9" and
    10: "tx_write_audit env keep remove_ids ps as k s9 = Inr s'"
    unfolding merge_transaction_def steps_chain by blast
  define K where "K = entity_property_id ` {p \<in> set (entity_property_tbl s). ep_entity_id p = keep}"
  have kp: "entity_property k = filter (\<lambda>p. ep_entity_id p = keep) (entity_property_tbl s)"
    by (rule fetch_kept_properties[OF f])
  then have kK: "entity_property_id ` set (entity_property k) \<subseteq> K" by (auto simp: K_def)
  have s5: "entity_property_tbl s5 = entity_property_tbl s"
    "entity_property_seq s5 = entity_property_seq s"
    using first_steps_properties(1)[OF 1] people_loop_properties[OF 2]
      first_steps_properties(2)[OF 3] address_loop_properties[OF 4]
      first_steps_properties(3)[OF 5] by simp_all
  have s6: "entity_property_tbl s6 = filter (\<lambda>p. ep_entity_id p \<noteq> keep) (entity_property_tbl s)"
    "entity_property_seq s6 = entity_property_seq s"
    using 6 s5 by (auto simp: tx_clear_properties_def prisma_deleteMany_def)
  have inj: "inj_on entity_property_id (set (entity_property_tbl s))"
    using assms(1) by (simp add: property_pk_def distinct_map)
  have lt: "\<forall>p \<in> set (entity_property_tbl s). entity_property_id p < entity_property_seq s"
    using assms(1) by (simp add: property_pk_def list_all_iff)
  have gone: "ids_gone K s6"
    unfolding ids_gone_def s6 K_def using inj lt by (auto dest: inj_onD)
  from property_loop_creates[OF 7 gone kK] obtain new where
    n1: "entity_property_tbl s7 = entity_property_tbl s6 @ new" and
    n2: "map row_content new = map supplied_content prs" and
    n3: "\<forall>p \<in> set new. ep_entity_id p = keep \<and> entity_property_seq s6 \<le> entity_property_id p"
    by blast
  define D where "D = map entity_property_id (concat (map entity_property rm))"
  have Dlt: "\<forall>i \<in> set D. i < entity_property_seq s"
    using fetch_removed_properties[OF f] lt by (fastforce simp: D_def)
  have newD: "filter (\<lambda>p. entity_property_id p \<notin> set D) new = new"
    using n3 Dlt s6(2) by (fastforce simp: filter_id_conv)
  have s8: "entity_property_tbl s8 =
      filter (\<lambda>p. entity_property_id p \<notin> set D) (entity_property_tbl s6) @ new"
  proof (cases "D = []")
    case True
    with 8 n1 show ?thesis by (simp add: tx_delete_properties_def D_def Let_def)
  next
    case False
    with 8 n1 newD show ?thesis
      by (auto simp: tx_delete_properties_def D_def Let_def prisma_deleteMany_def)
  qed
  have s': "entity_property_tbl s' = entity_property_tbl s8"
    using last_steps_properties(1)[OF 9] last_steps_properties(2)[OF 10] by simp
  have a: "filter (\<lambda>p. ep_entity_id p = keep)
      (filter (\<lambda>p. entity_property_id p \<notin> set D) (entity_property_tbl s6)) = []"
    by (auto simp: s6 filter_empty_conv)
  have b: "filter (\<lambda>p. ep_entity_id p = keep) new = new"
    using n3 by (simp add: filter_id_conv)
  show ?thesis unfolding s' s8 by (simp only: filter_append a b n2 append_Nil)
qed

lemma committed_full_replace_instance:
  "map row_content (filter (\<lambda>p. ep_entity_id p = 1)
       (entity_property_tbl (snd (applyEntitiesDuplicateMergeController ex_env ex_payload ex_store))))
     = [(7, Some ''b@x.com'', Some ''Yes'')]"
proof -
  have ppk: "property_pk ex_store" by code_simp
  have res: "fst (applyEntitiesDuplicateMergeController ex_env ex_payload ex_store) =
      Inr \<lparr>merged_entity_id = 1, deleted_entity_ids = [2], applied = True\<rparr>"
    by code_simp
  then have run: "applyEntitiesDuplicateMergeController ex_env ex_payload ex_store =
      (Inr \<lparr>merged_entity_id = 1, deleted_entity_ids = [2], applied = True\<rparr>,
       snd (applyEntitiesDuplicateMergeController ex_env ex_payload ex_store))"
    by (metis prod.collapse)
  have k: "keep_entity_id ex_payload = Some 1"
    and m: "me_properties (merged_entity ex_payload) = Some [mk_property_payload None 7 ''b@x.com'' ''Yes'']"
    by (simp_all add: ex_payload_def mk_payload_def)
  from committed_full_replace[OF ppk run k m]
  show ?thesis by (simp add: supplied_content_def mk_property_payload_def)
qed

text \<open>
  Claim C3 at a request the code does not serve: entity 1 is kept with properties 5 and
  6, entity 2 is removed, and the merged property set is one property carrying
  identifier 5. The request passes validation; the transaction deletes the properties of
  entity 1, fails to update property 5 and is rolled back, so entity 1 keeps its two old
  properties instead of the one supplied.
\<close>

theorem full_replace_fails_on_existing_property:
  "validate_payload ex_payload_existing_property =
      Inr (1, [2], [], [], [mk_property_payload (Some 5) 7 ''b@x.com'' ''Yes''])
   \<and> applyEntitiesDuplicateMergeController ex_env ex_payload_existing_property ex_store =
       (Inl (BadRequest ''Failed to apply merge: Record to update not found in entity_property''),
        ex_store)
   \<and> map property_value (filter (\<lambda>p. ep_entity_id p = 1) (entity_property_tbl
         (snd (applyEntitiesDuplicateMergeController ex_env ex_payload_existing_property ex_store))))
       = [Some ''a@x.com'', Some ''555'']"
  by code_simp

end
